theory Spec2Isabelle
  imports Main "HOL-Library.List_Lexorder"
begin

section \<open>Python strings\<close>

text \<open>
  A Python \<open>str\<close> is a sequence of Unicode code points; a code point is a natural number.
  String literals of the source are written \<open>lit ''...''\<close>.
\<close>

type_synonym pystr = "nat list"

definition lit :: "string \<Rightarrow> pystr" where
  "lit s = map of_char s"

text \<open>
  \<open>str.isspace\<close> on one code point: U+0009..U+000D, U+001C..U+0020, U+0085, U+00A0, U+1680,
  U+2000..U+200A, U+2028, U+2029, U+202F, U+205F, U+3000.
\<close>

definition isspace :: "nat \<Rightarrow> bool" where
  "isspace c \<longleftrightarrow>
     (9 \<le> c \<and> c \<le> 13) \<or> (28 \<le> c \<and> c \<le> 32) \<or> c = 133 \<or> c = 160 \<or> c = 5760 \<or>
     (8192 \<le> c \<and> c \<le> 8202) \<or> c = 8232 \<or> c = 8233 \<or> c = 8239 \<or> c = 8287 \<or> c = 12288"

text \<open>\<open>s.strip()\<close>: leading and trailing whitespace removed.\<close>

definition strip :: "pystr \<Rightarrow> pystr" where
  "strip s = rev (dropWhile isspace (rev (dropWhile isspace s)))"

section \<open>The two tables\<close>

text \<open>
  \<open>init_db\<close> creates \<open>home_eval_leads\<close> and \<open>posts\<close>. A column declared \<open>NOT NULL\<close> holds a
  string (or an integer); a nullable \<open>TEXT\<close> column holds \<open>None\<close> for \<open>NULL\<close>.
\<close>

record lead =
  lead_id :: int
  full_name :: pystr
  email :: pystr
  phone :: "pystr option"
  address :: pystr
  property_type :: "pystr option"
  timeframe :: "pystr option"
  lead_notes :: "pystr option"
  lead_created_at :: pystr

record post =
  post_id :: int
  title :: pystr
  slug :: pystr
  summary :: "pystr option"
  content_md :: pystr
  content_html :: pystr
  cover_url :: "pystr option"
  published :: int
  created_at :: pystr
  updated_at :: pystr

text \<open>
  The store: the rows of each table in insertion order, and for each table the largest
  key that \<open>AUTOINCREMENT\<close> has handed out (the table's entry in \<open>sqlite_sequence\<close>).
\<close>

record db =
  home_eval_leads :: "lead list"
  leads_seq :: int
  posts :: "post list"
  posts_seq :: int

text \<open>\<open>init_db\<close> on a fresh file: both tables exist and are empty.\<close>

definition init_db :: db where
  "init_db = \<lparr>home_eval_leads = [], leads_seq = 0, posts = [], posts_seq = 0\<rparr>"

text \<open>
  \<open>INTEGER PRIMARY KEY AUTOINCREMENT\<close>: the new key is one more than the largest key
  ever used in the table.
\<close>

definition next_rowid :: "int \<Rightarrow> int list \<Rightarrow> int" where
  "next_rowid seq ids = fold max ids seq + 1"

text \<open>
  A Python \<open>int\<close> bound to a \<open>?\<close> of a statement must fit SQLite's signed 64-bit
  \<open>INTEGER\<close>; otherwise \<open>execute\<close> raises \<open>OverflowError\<close>.
\<close>

definition sqlite_int :: "int \<Rightarrow> bool" where
  "sqlite_int n \<longleftrightarrow> - 9223372036854775808 \<le> n \<and> n \<le> 9223372036854775807"

section \<open>Requests, responses, outcomes\<close>

datatype http_method = GET | HEAD | POST

type_synonym form = "(pystr \<times> pystr) list"

record request =
  req_method :: http_method
  req_form :: form

text \<open>\<open>request.form.get(key, default)\<close>: the first value submitted under the key.\<close>

definition form_get :: "form \<Rightarrow> pystr \<Rightarrow> pystr \<Rightarrow> pystr" where
  "form_get f k d = (case map_of f k of None \<Rightarrow> d | Some v \<Rightarrow> v)"

datatype error =
  NameError
| IntegrityError
| OverflowError
| NotFound

datatype pyval = PyStr pystr | PyInt int

text \<open>\<open>url_for(endpoint, **values)\<close>, kept as the endpoint and its values.\<close>

datatype url = UrlFor string "(string \<times> pyval) list"

text \<open>The rows that the two public queries select (their column lists).\<close>

record post_listing =
  l_id :: int
  l_title :: pystr
  l_slug :: pystr
  l_summary :: "pystr option"
  l_cover_url :: "pystr option"
  l_created_at :: pystr

record post_detail =
  d_id :: int
  d_title :: pystr
  d_slug :: pystr
  d_summary :: "pystr option"
  d_content_md :: pystr
  d_content_html :: pystr
  d_cover_url :: "pystr option"
  d_created_at :: pystr

datatype ctxval =
  CStr pystr
| CForm form
| CRow post
| CDetail post_detail
| CRows "post_listing list"
| CUrl url

text \<open>
  \<open>Render t ctx status\<close> is \<open>render_template(t, **ctx)\<close> sent with the status code;
  \<open>Redirect u\<close> is \<open>redirect(u)\<close>.
\<close>

datatype response =
  Render string "(string \<times> ctxval) list" nat
| Redirect url

text \<open>
  What one call of a view function does: the store afterwards, the messages passed to
  \<open>flash\<close>, and what the function returned. \<open>Inl e\<close> is an exception leaving the function,
  \<open>Inr None\<close> is the function ending without a \<open>return\<close> statement.
\<close>

record outcome =
  db_after :: db
  flashed :: "string list"
  returned :: "error + response option"

definition respond :: "db \<Rightarrow> string list \<Rightarrow> response \<Rightarrow> outcome" where
  "respond d msgs r = \<lparr>db_after = d, flashed = msgs, returned = Inr (Some r)\<rparr>"

definition raise :: "db \<Rightarrow> error \<Rightarrow> outcome" where
  "raise d e = \<lparr>db_after = d, flashed = [], returned = Inl e\<rparr>"

definition render_template :: "string \<Rightarrow> (string \<times> ctxval) list \<Rightarrow> response" where
  "render_template t ctx = Render t ctx 200"

section \<open>Configuration and libraries\<close>

text \<open>
  \<open>ADMIN_PASSWORD\<close> is bound inside a \<open>try\<close> whose handler is \<open>pass\<close>: when the import of
  \<open>dotenv\<close> fails the name stays unbound (\<open>None\<close> here) and reading it raises \<open>NameError\<close>.
\<close>

record config =
  ADMIN_PASSWORD :: "pystr option"

definition check_admin :: "config \<Rightarrow> pystr \<Rightarrow> error + bool" where
  "check_admin cfg pw =
     (case ADMIN_PASSWORD cfg of None \<Rightarrow> Inl NameError | Some p \<Rightarrow> Inr (pw = p))"

text \<open>
  The functions and the constant that the source imports from \<open>slugify\<close>, \<open>markdown\<close> and
  \<open>bleach\<close>. They are parameters of the model.
\<close>

record libs =
  slugify :: "pystr \<Rightarrow> pystr"
  md_markdown :: "pystr \<Rightarrow> pystr list \<Rightarrow> pystr"
  bleach_ALLOWED_TAGS :: "pystr set"
  bleach_clean :: "pystr \<Rightarrow> pystr set \<Rightarrow> (pystr \<times> pystr list) list \<Rightarrow> pystr"

definition render_markdown :: "libs \<Rightarrow> pystr \<Rightarrow> pystr" where
  "render_markdown L md_text =
     (let html = md_markdown L md_text [lit ''extra'', lit ''tables'', lit ''fenced_code''];
          allowed_tags = bleach_ALLOWED_TAGS L \<union>
            {lit ''p'', lit ''img'', lit ''h1'', lit ''h2'', lit ''h3'', lit ''h4'', lit ''pre'',
             lit ''code'', lit ''table'', lit ''thead'', lit ''tbody'', lit ''tr'', lit ''th'',
             lit ''td'', lit ''hr'', lit ''br''};
          allowed_attrs =
            [(lit ''a'', [lit ''href'', lit ''title'', lit ''rel'', lit ''target'']),
             (lit ''img'', [lit ''src'', lit ''alt'', lit ''title'']),
             (lit ''code'', [lit ''class''])]
      in bleach_clean L html allowed_tags allowed_attrs)"

section \<open>Lead intake\<close>

definition insert_lead ::
  "db \<Rightarrow> pystr \<Rightarrow> pystr \<Rightarrow> pystr \<Rightarrow> pystr \<Rightarrow> pystr \<Rightarrow> pystr \<Rightarrow> pystr \<Rightarrow> pystr \<Rightarrow> db" where
  "insert_lead d n e ph a pt tf nt ts =
     (let i = next_rowid (leads_seq d) (map lead_id (home_eval_leads d))
      in d\<lparr>home_eval_leads := home_eval_leads d @
             [\<lparr>lead_id = i, full_name = n, email = e, phone = Some ph, address = a,
               property_type = Some pt, timeframe = Some tf, lead_notes = Some nt,
               lead_created_at = ts\<rparr>],
           leads_seq := i\<rparr>)"

text \<open>
  \<open>home_evaluation\<close>; \<open>now\<close> is the value of \<open>datetime.utcnow().isoformat()\<close> during the
  request.
\<close>

definition home_evaluation :: "pystr \<Rightarrow> request \<Rightarrow> db \<Rightarrow> outcome" where
  "home_evaluation now req d =
     (if req_method req = POST then
        (let f = req_form req;
             v_full_name = strip (form_get f (lit ''full_name'') []);
             v_email = strip (form_get f (lit ''email'') []);
             v_phone = strip (form_get f (lit ''phone'') []);
             v_address = strip (form_get f (lit ''address'') []);
             v_property_type = strip (form_get f (lit ''property_type'') []);
             v_timeframe = strip (form_get f (lit ''timeframe'') []);
             v_notes = strip (form_get f (lit ''notes'') []);
             data = [(lit ''full_name'', v_full_name), (lit ''email'', v_email),
                     (lit ''phone'', v_phone), (lit ''address'', v_address),
                     (lit ''property_type'', v_property_type),
                     (lit ''timeframe'', v_timeframe), (lit ''notes'', v_notes)]
         in if v_full_name = [] \<or> v_email = [] \<or> v_address = [] then
              respond d [''Name, email, and property address are required.'']
                (render_template ''home_evaluation.html'' [(''form'', CForm data)])
            else
              respond
                (insert_lead d v_full_name v_email v_phone v_address v_property_type
                   v_timeframe v_notes now)
                []
                (Redirect (UrlFor ''schedule'' [(''name'', PyStr v_full_name), (''email'', PyStr v_email)])))
      else respond d [] (render_template ''home_evaluation.html'' [(''form'', CForm [])]))"

section \<open>Blog listing and detail\<close>

definition listing_of :: "post \<Rightarrow> post_listing" where
  "listing_of p =
     \<lparr>l_id = post_id p, l_title = title p, l_slug = slug p, l_summary = summary p,
      l_cover_url = cover_url p, l_created_at = created_at p\<rparr>"

definition detail_of :: "post \<Rightarrow> post_detail" where
  "detail_of p =
     \<lparr>d_id = post_id p, d_title = title p, d_slug = slug p, d_summary = summary p,
      d_content_md = content_md p, d_content_html = content_html p,
      d_cover_url = cover_url p, d_created_at = created_at p\<rparr>"

text \<open>
  The query of \<open>blog_index\<close>. \<open>sql_datetime\<close> is SQLite's \<open>datetime()\<close>, a parameter;
  \<open>ORDER BY ... DESC\<close> leaves the order of rows with equal keys open, and the model
  takes the reverse of a stable ascending sort.
\<close>

definition blog_index_query :: "(pystr \<Rightarrow> 'k::linorder) \<Rightarrow> db \<Rightarrow> post_listing list" where
  "blog_index_query sql_datetime d =
     map listing_of
       (rev (sort_key (\<lambda>p. sql_datetime (created_at p))
          (filter (\<lambda>p. published p = 1) (posts d))))"

definition blog_index :: "(pystr \<Rightarrow> 'k::linorder) \<Rightarrow> db \<Rightarrow> outcome" where
  "blog_index sql_datetime d =
     respond d []
       (render_template ''blog_index.html'' [(''posts'', CRows (blog_index_query sql_datetime d))])"

text \<open>The query of \<open>blog_post\<close>: \<open>WHERE slug = ? AND published = 1 LIMIT 1\<close>, then \<open>fetchone\<close>.\<close>

definition blog_post_query :: "db \<Rightarrow> pystr \<Rightarrow> post_detail option" where
  "blog_post_query d s =
     map_option detail_of (find (\<lambda>p. slug p = s \<and> published p = 1) (posts d))"

text \<open>
  \<open>blog_post\<close>. \<open>content_html\<close> is \<open>NOT NULL\<close>, so \<open>post["content_html"] or ""\<close> is the
  stored string. The \<open>return\<close> statement is inside the \<open>if\<close>; on the other path the
  function ends without one.
\<close>

definition blog_post :: "libs \<Rightarrow> pystr \<Rightarrow> db \<Rightarrow> outcome" where
  "blog_post L s d =
     (case blog_post_query d s of
        None \<Rightarrow> raise d NotFound
      | Some post \<Rightarrow>
          (let html = strip (d_content_html post)
           in if html = [] \<and> d_content_md post \<noteq> [] then
                (let html = render_markdown L (d_content_md post);
                     edit_url = UrlFor ''admin_blog_edit'' [(''post_id'', PyInt (d_id post))]
                 in respond d []
                      (render_template ''blog_post.html''
                         [(''post'', CDetail post), (''content_html'', CStr html),
                          (''edit_url'', CUrl edit_url)]))
              else \<lparr>db_after = d, flashed = [], returned = Inr None\<rparr>))"

section \<open>Admin create and edit\<close>

text \<open>
  \<open>INSERT INTO posts\<close>: \<open>slug\<close> is \<open>UNIQUE\<close>, so the statement raises \<open>IntegrityError\<close> when a
  row already has the slug; the connection's \<open>with\<close> block then rolls back.
\<close>

definition insert_post ::
  "db \<Rightarrow> pystr \<Rightarrow> pystr \<Rightarrow> pystr \<Rightarrow> pystr \<Rightarrow> pystr \<Rightarrow> pystr \<Rightarrow> int \<Rightarrow> pystr \<Rightarrow> pystr \<Rightarrow> error + db" where
  "insert_post d t s sm cm ch cu pb c u =
     (if list_ex (\<lambda>q. slug q = s) (posts d) then Inl IntegrityError
      else
        (let i = next_rowid (posts_seq d) (map post_id (posts d))
         in Inr (d\<lparr>posts := posts d @
                   [\<lparr>post_id = i, title = t, slug = s, summary = Some sm, content_md = cm,
                     content_html = ch, cover_url = Some cu, published = pb,
                     created_at = c, updated_at = u\<rparr>],
                   posts_seq := i\<rparr>)))"

text \<open>
  \<open>UPDATE posts SET ... WHERE id=?\<close>: raises \<open>IntegrityError\<close> when a row is updated and
  a different row already has the new slug.
\<close>

definition update_post ::
  "db \<Rightarrow> pystr \<Rightarrow> pystr \<Rightarrow> pystr \<Rightarrow> pystr \<Rightarrow> pystr \<Rightarrow> pystr \<Rightarrow> int \<Rightarrow> pystr \<Rightarrow> int \<Rightarrow> error + db" where
  "update_post d t s sm cm ch cu pb u i =
     (if list_ex (\<lambda>q. post_id q = i) (posts d) \<and>
         list_ex (\<lambda>q. post_id q \<noteq> i \<and> slug q = s) (posts d)
      then Inl IntegrityError
      else Inr (d\<lparr>posts :=
             map (\<lambda>p. if post_id p = i
                       then p\<lparr>title := t, slug := s, summary := Some sm, content_md := cm,
                              content_html := ch, cover_url := Some cu, published := pb,
                              updated_at := u\<rparr>
                       else p)
               (posts d)\<rparr>))"

definition admin_blog_new :: "libs \<Rightarrow> config \<Rightarrow> pystr \<Rightarrow> request \<Rightarrow> db \<Rightarrow> outcome" where
  "admin_blog_new L cfg now req d =
     (if req_method req = POST then
        (case check_admin cfg (form_get (req_form req) (lit ''password'') []) of
           Inl e \<Rightarrow> raise d e
         | Inr ok \<Rightarrow>
             if \<not> ok then
               respond d [''Invalid admin password.'']
                 (render_template ''admin_post_edit.html''
                    [(''form'', CForm (req_form req)), (''mode'', CStr (lit ''new''))])
             else
               (let v_title = strip (form_get (req_form req) (lit ''title'') []);
                    v_summary = strip (form_get (req_form req) (lit ''summary'') []);
                    v_content_md = strip (form_get (req_form req) (lit ''content_md'') []);
                    v_cover_url = strip (form_get (req_form req) (lit ''cover_url'') []);
                    v_published =
                      (if map_of (req_form req) (lit ''published'') = Some (lit ''on'')
                       then 1 else 0)
                in if v_title = [] \<or> v_content_md = [] then
                     respond d [''Title and content are required.'']
                       (render_template ''admin_post_edit.html''
                          [(''form'', CForm (req_form req)), (''mode'', CStr (lit ''new''))])
                   else
                     (let v_slug = slugify L v_title;
                          v_content_html = render_markdown L v_content_md
                      in case insert_post d v_title v_slug v_summary v_content_md
                                v_content_html v_cover_url v_published now now of
                           Inl e \<Rightarrow> raise d e
                         | Inr d' \<Rightarrow>
                             respond d' []
                               (Redirect (UrlFor ''blog_post'' [(''slug'', PyStr v_slug)])))))
      else
        respond d []
          (render_template ''admin_post_edit.html''
             [(''form'', CForm []), (''mode'', CStr (lit ''new''))]))"

text \<open>
  \<open>admin_blog_edit\<close>. The route's \<open>int\<close> converter accepts any run of digits, so \<open>post_id\<close>
  is a non-negative integer of any size; the \<open>SELECT\<close> that opens the function binds it
  and raises \<open>OverflowError\<close> when it does not fit.
\<close>

definition admin_blog_edit :: "libs \<Rightarrow> config \<Rightarrow> pystr \<Rightarrow> int \<Rightarrow> request \<Rightarrow> db \<Rightarrow> outcome" where
  "admin_blog_edit L cfg now pid req d =
     (if \<not> sqlite_int pid then raise d OverflowError else
      case find (\<lambda>p. post_id p = pid) (posts d) of
        None \<Rightarrow> respond d [] (Render ''404.html'' [] 404)
      | Some row \<Rightarrow>
          if req_method req = POST then
            (case check_admin cfg (form_get (req_form req) (lit ''password'') []) of
               Inl e \<Rightarrow> raise d e
             | Inr ok \<Rightarrow>
                 if \<not> ok then
                   respond d [''Invalid admin password.'']
                     (render_template ''admin_post_edit.html''
                        [(''form'', CForm (req_form req)), (''mode'', CStr (lit ''edit'')),
                         (''post'', CRow row)])
                 else
                   (let v_title = strip (form_get (req_form req) (lit ''title'') []);
                        v_summary = strip (form_get (req_form req) (lit ''summary'') []);
                        v_content_md = strip (form_get (req_form req) (lit ''content_md'') []);
                        v_cover_url = strip (form_get (req_form req) (lit ''cover_url'') []);
                        v_published =
                          (if map_of (req_form req) (lit ''published'') = Some (lit ''on'')
                           then 1 else 0);
                        v_slug = slugify L v_title;
                        v_content_html = render_markdown L v_content_md
                    in case update_post d v_title v_slug v_summary v_content_md
                              v_content_html v_cover_url v_published now pid of
                         Inl e \<Rightarrow> raise d e
                       | Inr d' \<Rightarrow>
                           respond d' []
                             (Redirect (UrlFor ''blog_post'' [(''slug'', PyStr v_slug)]))))
          else
            respond d []
              (render_template ''admin_post_edit.html''
                 [(''form'', CRow row), (''mode'', CStr (lit ''edit'')), (''post'', CRow row)]))"

section \<open>Invariants of the store\<close>

text \<open>What the schema enforces: \<open>id\<close> is the primary key of each table and \<open>slug\<close> is unique.\<close>

definition schema_ok :: "db \<Rightarrow> bool" where
  "schema_ok d \<longleftrightarrow>
     distinct (map lead_id (home_eval_leads d)) \<and>
     distinct (map post_id (posts d)) \<and>
     distinct (map slug (posts d))"

section \<open>Tags of an HTML text\<close>

text \<open>
  The vocabulary of the sanitisation property: the names of the tags that occur in a
  text. A tag starts at \<open><\<close> or \<open></\<close> followed by an ASCII letter; its name runs up to
  white space, \<open>/\<close> or \<open>>\<close> and is read in lower case.
\<close>

definition ascii_alpha :: "nat \<Rightarrow> bool" where
  "ascii_alpha c \<longleftrightarrow> (65 \<le> c \<and> c \<le> 90) \<or> (97 \<le> c \<and> c \<le> 122)"

definition ascii_lower :: "nat \<Rightarrow> nat" where
  "ascii_lower c = (if 65 \<le> c \<and> c \<le> 90 then c + 32 else c)"

definition tag_name_char :: "nat \<Rightarrow> bool" where
  "tag_name_char c \<longleftrightarrow> c \<notin> {9, 10, 12, 13, 32, 47, 62}"

fun html_tag_names :: "pystr \<Rightarrow> pystr list" where
  "html_tag_names [] = []"
| "html_tag_names (c # cs) =
     (if c = 60 then
        (let r = (case cs of [] \<Rightarrow> [] | x # xs \<Rightarrow> if x = 47 then xs else cs);
             n = takeWhile tag_name_char r
         in if n \<noteq> [] \<and> ascii_alpha (hd n)
            then map ascii_lower n # html_tag_names cs
            else html_tag_names cs)
      else html_tag_names cs)"

definition contains_tag :: "pystr \<Rightarrow> pystr \<Rightarrow> bool" where
  "contains_tag html t \<longleftrightarrow> t \<in> set (html_tag_names html)"

text \<open>
  What \<open>bleach.clean\<close> is relied on for: every tag of its output is one of the tags it
  was given as allowed.
\<close>

definition clean_respects_allow_list :: "libs \<Rightarrow> bool" where
  "clean_respects_allow_list L \<longleftrightarrow>
     (\<forall>html tags attrs t. contains_tag (bleach_clean L html tags attrs) t \<longrightarrow> t \<in> tags)"

section \<open>Two posts with one title\<close>

text \<open>
  The two behaviours a second write under an existing slug could have: the write raises
  \<open>IntegrityError\<close>, or it goes through and a row that held the slug is gone.
\<close>

definition fails_uniqueness :: "outcome \<Rightarrow> bool" where
  "fails_uniqueness out \<longleftrightarrow> returned out = Inl IntegrityError"

definition silently_overwrites :: "db \<Rightarrow> outcome \<Rightarrow> pystr \<Rightarrow> bool" where
  "silently_overwrites d out s \<longleftrightarrow>
     \<not> isl (returned out) \<and>
     list_ex (\<lambda>p. slug p = s \<and> p \<notin> set (posts (db_after out))) (posts d)"

section \<open>Example inputs\<close>

definition ex_now :: pystr where
  "ex_now = lit ''2024-05-01T10:00:00.000001''"

definition ex_lead_blank :: request where
  "ex_lead_blank =
     \<lparr>req_method = POST,
      req_form = [(lit ''full_name'', lit '' Ann Lee ''), (lit ''email'', lit ''  ''),
                  (lit ''address'', lit ''1 Main St'')]\<rparr>"

definition ex_lead_ok :: request where
  "ex_lead_ok =
     \<lparr>req_method = POST,
      req_form = [(lit ''full_name'', lit '' Ann Lee ''),
                  (lit ''email'', lit ''ann@example.org ''),
                  (lit ''address'', lit ''1 Main St''), (lit ''notes'', lit ''call me'')]\<rparr>"

text \<open>Stand-ins for the library functions, to run the handlers on concrete inputs.\<close>

definition ex_slugify :: "pystr \<Rightarrow> pystr" where
  "ex_slugify t = map (\<lambda>c. if c = 32 then 45 else ascii_lower c) t"

definition ex_markdown :: "pystr \<Rightarrow> pystr list \<Rightarrow> pystr" where
  "ex_markdown t exts = lit ''<p>'' @ t @ lit ''</p>''"

definition ex_escape :: "nat \<Rightarrow> pystr" where
  "ex_escape c = (if c = 60 then lit ''&lt;'' else if c = 62 then lit ''&gt;'' else [c])"

definition ex_clean :: "pystr \<Rightarrow> pystr set \<Rightarrow> (pystr \<times> pystr list) list \<Rightarrow> pystr" where
  "ex_clean html tags attrs = concat (map ex_escape html)"

definition ex_libs :: libs where
  "ex_libs =
     \<lparr>slugify = ex_slugify, md_markdown = ex_markdown,
      bleach_ALLOWED_TAGS =
        {lit ''a'', lit ''abbr'', lit ''acronym'', lit ''b'', lit ''blockquote'', lit ''code'',
         lit ''em'', lit ''i'', lit ''li'', lit ''ol'', lit ''strong'', lit ''ul''},
      bleach_clean = ex_clean\<rparr>"

definition ex_sql_datetime :: "pystr \<Rightarrow> pystr" where
  "ex_sql_datetime s = map (\<lambda>c. if c = 84 then 32 else c) (take 19 s)"

definition ex_cfg :: config where
  "ex_cfg = \<lparr>ADMIN_PASSWORD = Some (lit ''s3cret'')\<rparr>"

definition ex_post_with_html :: post where
  "ex_post_with_html =
     \<lparr>post_id = 1, title = lit ''Hello'', slug = lit ''hello'', summary = Some [],
      content_md = lit ''Hi'', content_html = lit ''<p>Hi</p>'', cover_url = Some [],
      published = 1, created_at = lit ''2024-01-01T09:00:00'',
      updated_at = lit ''2024-01-01T09:00:00''\<rparr>"

definition ex_post_without_html :: post where
  "ex_post_without_html =
     \<lparr>post_id = 2, title = lit ''Old'', slug = lit ''old'', summary = None,
      content_md = lit ''Hi'', content_html = [], cover_url = None,
      published = 1, created_at = lit ''2024-02-01T09:00:00'',
      updated_at = lit ''2024-02-01T09:00:00''\<rparr>"

definition ex_post_unpublished :: post where
  "ex_post_unpublished =
     \<lparr>post_id = 3, title = lit ''Draft'', slug = lit ''draft'', summary = Some [],
      content_md = lit ''Soon'', content_html = lit ''<p>Soon</p>'', cover_url = Some [],
      published = 0, created_at = lit ''2024-03-01T09:00:00'',
      updated_at = lit ''2024-03-01T09:00:00''\<rparr>"

definition ex_db :: db where
  "ex_db =
     \<lparr>home_eval_leads = [], leads_seq = 0,
      posts = [ex_post_with_html, ex_post_without_html, ex_post_unpublished],
      posts_seq = 3\<rparr>"

definition ex_wrong_password :: request where
  "ex_wrong_password =
     \<lparr>req_method = POST,
      req_form = [(lit ''password'', lit ''guess''), (lit ''title'', lit ''New title''),
                  (lit ''content_md'', lit ''Text'')]\<rparr>"

definition ex_missing_title :: request where
  "ex_missing_title =
     \<lparr>req_method = POST,
      req_form = [(lit ''password'', lit ''s3cret''), (lit ''title'', lit ''  ''),
                  (lit ''content_md'', lit ''Text'')]\<rparr>"

definition ex_save :: request where
  "ex_save =
     \<lparr>req_method = POST,
      req_form = [(lit ''password'', lit ''s3cret''), (lit ''title'', lit '' New Title''),
                  (lit ''content_md'', lit ''<script>x</script>''),
                  (lit ''published'', lit ''on'')]\<rparr>"

section \<open>Properties\<close>

lemma lit_eq_iff [simp]: "lit a = lit b \<longleftrightarrow> a = b"
  by (simp add: lit_def inj_map_eq_map inj_on_def)

lemma next_rowid_fresh: "i \<in> set ids \<Longrightarrow> i < next_rowid seq ids"
proof -
  have "\<And>a. a \<le> fold max ids a \<and> (\<forall>j \<in> set ids. j \<le> fold max ids a)"
  proof (induction ids)
    case Nil
    show ?case by simp
  next
    case (Cons x xs)
    from Cons [of "max x a"] show ?case by auto
  qed
  then show "i \<in> set ids \<Longrightarrow> i < next_rowid seq ids"
    by (fastforce simp: next_rowid_def)
qed

subsection \<open>Facts about the store\<close>

lemma find_published:
  "find (\<lambda>p. slug p = s \<and> published p = 1) ps = Some q \<Longrightarrow>
     q \<in> set ps \<and> slug q = s \<and> published q = 1"
  by (induction ps) (auto split: if_splits)

lemma find_by_id:
  "find (\<lambda>p. post_id p = i) ps = Some q \<Longrightarrow> q \<in> set ps \<and> post_id q = i"
  by (induction ps) (auto split: if_splits)

lemma same_slug_same_row:
  "distinct (map slug ps) \<Longrightarrow> p \<in> set ps \<Longrightarrow> q \<in> set ps \<Longrightarrow> slug p = slug q \<Longrightarrow> p = q"
  by (meson distinct_map inj_onD)

lemma same_id_same_row:
  "distinct (map post_id ps) \<Longrightarrow> p \<in> set ps \<Longrightarrow> q \<in> set ps \<Longrightarrow> post_id p = post_id q \<Longrightarrow> p = q"
  by (meson distinct_map inj_onD)

lemma insert_post_cases:
  "insert_post d t s sm cm ch cu pb c u = Inl e \<Longrightarrow>
     e = IntegrityError \<and> (\<exists>q \<in> set (posts d). slug q = s)"
  "insert_post d t s sm cm ch cu pb c u = Inr d' \<Longrightarrow>
     (\<forall>q \<in> set (posts d). slug q \<noteq> s) \<and>
     d' = d\<lparr>posts := posts d @
             [\<lparr>post_id = next_rowid (posts_seq d) (map post_id (posts d)), title = t, slug = s,
               summary = Some sm, content_md = cm, content_html = ch, cover_url = Some cu,
               published = pb, created_at = c, updated_at = u\<rparr>],
           posts_seq := next_rowid (posts_seq d) (map post_id (posts d))\<rparr>"
  by (auto simp: insert_post_def Let_def list_ex_iff split: if_splits)

lemma update_post_rows:
  assumes "update_post d t s sm cm ch cu pb u i = Inr d'"
  shows "home_eval_leads d' = home_eval_leads d" and "leads_seq d' = leads_seq d"
    and "posts_seq d' = posts_seq d"
    and "posts d' =
           map (\<lambda>p. if post_id p = i
                     then p\<lparr>title := t, slug := s, summary := Some sm, content_md := cm,
                            content_html := ch, cover_url := Some cu, published := pb,
                            updated_at := u\<rparr>
                     else p) (posts d)"
  using assms by (auto simp: update_post_def split: if_splits)

lemma update_post_error:
  "update_post d t s sm cm ch cu pb u i = Inl e \<Longrightarrow> e = IntegrityError"
  by (auto simp: update_post_def split: if_splits)


text \<open>The schema's constraints hold at start-up and every write keeps them.\<close>

lemma schema_ok_init_db: "schema_ok init_db"
  by (simp add: schema_ok_def init_db_def)

lemma insert_lead_rows:
  "home_eval_leads (insert_lead d n e ph a pt tf nt ts) =
     home_eval_leads d @
       [\<lparr>lead_id = next_rowid (leads_seq d) (map lead_id (home_eval_leads d)), full_name = n,
         email = e, phone = Some ph, address = a, property_type = Some pt,
         timeframe = Some tf, lead_notes = Some nt, lead_created_at = ts\<rparr>]"
  "posts (insert_lead d n e ph a pt tf nt ts) = posts d"
  "posts_seq (insert_lead d n e ph a pt tf nt ts) = posts_seq d"
  by (simp_all add: insert_lead_def Let_def)

lemma schema_ok_insert_lead:
  assumes "schema_ok d"
  shows "schema_ok (insert_lead d n e ph a pt tf nt ts)"
proof -
  have "next_rowid (leads_seq d) (map lead_id (home_eval_leads d))
          \<notin> set (map lead_id (home_eval_leads d))"
    using next_rowid_fresh by blast
  with assms show ?thesis
    by (simp add: schema_ok_def insert_lead_rows)
qed

lemma schema_ok_home_evaluation:
  assumes "schema_ok d"
  shows "schema_ok (db_after (home_evaluation now req d))"
  using assms schema_ok_insert_lead
  by (simp add: home_evaluation_def Let_def respond_def)


lemma schema_ok_insert_post:
  assumes "schema_ok d" and "insert_post d t s sm cm ch cu pb c u = Inr d'"
  shows "schema_ok d'"
proof -
  have "next_rowid (posts_seq d) (map post_id (posts d)) \<notin> set (map post_id (posts d))"
    using next_rowid_fresh by blast
  moreover have "s \<notin> set (map slug (posts d))"
    using insert_post_cases(2) [OF assms(2)] by auto
  moreover have "home_eval_leads d' = home_eval_leads d"
    using insert_post_cases(2) [OF assms(2)] by simp
  moreover have "posts d' = posts d @
             [\<lparr>post_id = next_rowid (posts_seq d) (map post_id (posts d)), title = t, slug = s,
               summary = Some sm, content_md = cm, content_html = ch, cover_url = Some cu,
               published = pb, created_at = c, updated_at = u\<rparr>]"
    using insert_post_cases(2) [OF assms(2)] by simp
  ultimately show ?thesis
    using assms(1) by (simp add: schema_ok_def)
qed


lemma schema_ok_update_post:
  assumes "schema_ok d" and "update_post d t s sm cm ch cu pb u i = Inr d'"
  shows "schema_ok d'"
proof -
  define f :: "post \<Rightarrow> post" where "f = (\<lambda>p. if post_id p = i
                 then p\<lparr>title := t, slug := s, summary := Some sm, content_md := cm,
                        content_html := ch, cover_url := Some cu, published := pb,
                        updated_at := u\<rparr>
                 else p)"
  have f_id: "post_id (f p) = post_id p" for p
    by (simp add: f_def)
  have f_slug: "slug (f p) = (if post_id p = i then s else slug p)" for p
    by (simp add: f_def)
  have rows: "posts d' = map f (posts d)" and leads: "home_eval_leads d' = home_eval_leads d"
    using update_post_rows [OF assms(2)] by (simp_all add: f_def)
  have ids: "distinct (map post_id (posts d))" and slugs: "distinct (map slug (posts d))"
    using assms(1) by (simp_all add: schema_ok_def)
  have same_ids: "map post_id (map f (posts d)) = map post_id (posts d)"
    by (simp add: f_id)
  have free: "slug q \<noteq> s"
    if "p \<in> set (posts d)" "post_id p = i" "q \<in> set (posts d)" "post_id q \<noteq> i" for p q
  proof -
    have "list_ex (\<lambda>q. post_id q = i) (posts d)"
      using that(1,2) by (auto simp: list_ex_iff)
    moreover have "\<not> (list_ex (\<lambda>q. post_id q = i) (posts d) \<and>
           list_ex (\<lambda>q. post_id q \<noteq> i \<and> slug q = s) (posts d))"
      using assms(2) by (auto simp: update_post_def split: if_splits)
    ultimately have "\<not> list_ex (\<lambda>q. post_id q \<noteq> i \<and> slug q = s) (posts d)"
      by blast
    with that(3,4) show ?thesis
      by (auto simp: list_ex_iff)
  qed
  have inj: "inj_on (\<lambda>p. slug (f p)) (set (posts d))"
  proof (rule inj_onI)
    fix p q
    assume p: "p \<in> set (posts d)" and q: "q \<in> set (posts d)" and eq: "slug (f p) = slug (f q)"
    consider "post_id p = i" "post_id q = i" | "post_id p = i" "post_id q \<noteq> i"
      | "post_id p \<noteq> i" "post_id q = i" | "post_id p \<noteq> i" "post_id q \<noteq> i"
      by blast
    then show "p = q"
    proof cases
      case 1
      then have "post_id p = post_id q" by simp
      with ids p q show ?thesis by (rule same_id_same_row)
    next
      case 2
      with eq have "slug q = s" by (simp add: f_slug)
      with free [OF p 2(1) q 2(2)] show ?thesis by simp
    next
      case 3
      with eq have "slug p = s" by (simp add: f_slug)
      with free [OF q 3(2) p 3(1)] show ?thesis by simp
    next
      case 4
      with eq have "slug p = slug q" by (simp add: f_slug)
      with slugs p q show ?thesis by (rule same_slug_same_row)
    qed
  qed
  have "distinct (posts d)"
    using ids by (simp add: distinct_map)
  with inj have "distinct (map (\<lambda>p. slug (f p)) (posts d))"
    by (simp add: distinct_map)
  then have "distinct (map slug (map f (posts d)))"
    by (simp add: comp_def)
  moreover have "distinct (map post_id (map f (posts d)))"
    using same_ids ids by (simp only:)
  moreover have "distinct (map lead_id (home_eval_leads d))"
    using assms(1) by (simp add: schema_ok_def)
  ultimately show ?thesis
    unfolding schema_ok_def rows leads by blast
qed

text \<open>The paths through \<open>admin_blog_new\<close>.\<close>

lemma admin_blog_new_not_post:
  "req_method req \<noteq> POST \<Longrightarrow>
     admin_blog_new L cfg now req d =
       respond d [] (render_template ''admin_post_edit.html''
         [(''form'', CForm []), (''mode'', CStr (lit ''new''))])"
  by (simp add: admin_blog_new_def)

lemma admin_blog_new_unbound:
  "req_method req = POST \<Longrightarrow> ADMIN_PASSWORD cfg = None \<Longrightarrow>
     admin_blog_new L cfg now req d = raise d NameError"
  by (simp add: admin_blog_new_def check_admin_def)

lemma admin_blog_new_wrong_password:
  "req_method req = POST \<Longrightarrow> ADMIN_PASSWORD cfg = Some pw \<Longrightarrow>
   form_get (req_form req) (lit ''password'') [] \<noteq> pw \<Longrightarrow>
     admin_blog_new L cfg now req d =
       respond d [''Invalid admin password.'']
         (render_template ''admin_post_edit.html''
            [(''form'', CForm (req_form req)), (''mode'', CStr (lit ''new''))])"
  by (simp add: admin_blog_new_def check_admin_def)

lemma admin_blog_new_missing:
  "req_method req = POST \<Longrightarrow> ADMIN_PASSWORD cfg = Some pw \<Longrightarrow>
   form_get (req_form req) (lit ''password'') [] = pw \<Longrightarrow>
   strip (form_get (req_form req) (lit ''title'') []) = [] \<or>
   strip (form_get (req_form req) (lit ''content_md'') []) = [] \<Longrightarrow>
     admin_blog_new L cfg now req d =
       respond d [''Title and content are required.'']
         (render_template ''admin_post_edit.html''
            [(''form'', CForm (req_form req)), (''mode'', CStr (lit ''new''))])"
  by (simp add: admin_blog_new_def check_admin_def Let_def)

lemma admin_blog_new_write:
  "req_method req = POST \<Longrightarrow> ADMIN_PASSWORD cfg = Some pw \<Longrightarrow>
   form_get (req_form req) (lit ''password'') [] = pw \<Longrightarrow>
   strip (form_get (req_form req) (lit ''title'') []) \<noteq> [] \<Longrightarrow>
   strip (form_get (req_form req) (lit ''content_md'') []) \<noteq> [] \<Longrightarrow>
     admin_blog_new L cfg now req d =
       (case insert_post d
               (strip (form_get (req_form req) (lit ''title'') []))
               (slugify L (strip (form_get (req_form req) (lit ''title'') [])))
               (strip (form_get (req_form req) (lit ''summary'') []))
               (strip (form_get (req_form req) (lit ''content_md'') []))
               (render_markdown L (strip (form_get (req_form req) (lit ''content_md'') [])))
               (strip (form_get (req_form req) (lit ''cover_url'') []))
               (if map_of (req_form req) (lit ''published'') = Some (lit ''on'') then 1 else 0)
               now now of
          Inl e \<Rightarrow> raise d e
        | Inr d' \<Rightarrow>
            respond d' []
              (Redirect (UrlFor ''blog_post''
                 [(''slug'', PyStr (slugify L (strip (form_get (req_form req) (lit ''title'') []))))])))"
  by (simp add: admin_blog_new_def check_admin_def Let_def)

text \<open>The paths through \<open>admin_blog_edit\<close>.\<close>

lemma admin_blog_edit_overflow:
  "\<not> sqlite_int i \<Longrightarrow> admin_blog_edit L cfg now i req d = raise d OverflowError"
  by (simp add: admin_blog_edit_def)

lemma admin_blog_edit_no_row:
  "sqlite_int i \<Longrightarrow> find (\<lambda>p. post_id p = i) (posts d) = None \<Longrightarrow>
     admin_blog_edit L cfg now i req d = respond d [] (Render ''404.html'' [] 404)"
  by (simp add: admin_blog_edit_def)

lemma admin_blog_edit_not_post:
  "sqlite_int i \<Longrightarrow> find (\<lambda>p. post_id p = i) (posts d) = Some row \<Longrightarrow> req_method req \<noteq> POST \<Longrightarrow>
     admin_blog_edit L cfg now i req d =
       respond d [] (render_template ''admin_post_edit.html''
         [(''form'', CRow row), (''mode'', CStr (lit ''edit'')), (''post'', CRow row)])"
  by (simp add: admin_blog_edit_def)

lemma admin_blog_edit_unbound:
  "sqlite_int i \<Longrightarrow> find (\<lambda>p. post_id p = i) (posts d) = Some row \<Longrightarrow> req_method req = POST \<Longrightarrow>
   ADMIN_PASSWORD cfg = None \<Longrightarrow>
     admin_blog_edit L cfg now i req d = raise d NameError"
  by (simp add: admin_blog_edit_def check_admin_def)

lemma admin_blog_edit_wrong_password:
  "sqlite_int i \<Longrightarrow> find (\<lambda>p. post_id p = i) (posts d) = Some row \<Longrightarrow> req_method req = POST \<Longrightarrow>
   ADMIN_PASSWORD cfg = Some pw \<Longrightarrow>
   form_get (req_form req) (lit ''password'') [] \<noteq> pw \<Longrightarrow>
     admin_blog_edit L cfg now i req d =
       respond d [''Invalid admin password.'']
         (render_template ''admin_post_edit.html''
            [(''form'', CForm (req_form req)), (''mode'', CStr (lit ''edit'')),
             (''post'', CRow row)])"
  by (simp add: admin_blog_edit_def check_admin_def)

lemma admin_blog_edit_write:
  "sqlite_int i \<Longrightarrow> find (\<lambda>p. post_id p = i) (posts d) = Some row \<Longrightarrow> req_method req = POST \<Longrightarrow>
   ADMIN_PASSWORD cfg = Some pw \<Longrightarrow>
   form_get (req_form req) (lit ''password'') [] = pw \<Longrightarrow>
     admin_blog_edit L cfg now i req d =
       (case update_post d
               (strip (form_get (req_form req) (lit ''title'') []))
               (slugify L (strip (form_get (req_form req) (lit ''title'') [])))
               (strip (form_get (req_form req) (lit ''summary'') []))
               (strip (form_get (req_form req) (lit ''content_md'') []))
               (render_markdown L (strip (form_get (req_form req) (lit ''content_md'') [])))
               (strip (form_get (req_form req) (lit ''cover_url'') []))
               (if map_of (req_form req) (lit ''published'') = Some (lit ''on'') then 1 else 0)
               now i of
          Inl e \<Rightarrow> raise d e
        | Inr d' \<Rightarrow>
            respond d' []
              (Redirect (UrlFor ''blog_post''
                 [(''slug'', PyStr (slugify L (strip (form_get (req_form req) (lit ''title'') []))))])))"
  by (simp add: admin_blog_edit_def check_admin_def Let_def)

text \<open>
  Whatever the request, \<open>admin_blog_new\<close> leaves the store as it was or commits the one
  \<open>INSERT\<close>, and \<open>admin_blog_edit\<close> leaves it as it was or commits the one \<open>UPDATE\<close>.
\<close>

lemma admin_blog_new_store:
  "db_after (admin_blog_new L cfg now req d) = d \<and>
     (\<forall>u. returned (admin_blog_new L cfg now req d) \<noteq> Inr (Some (Redirect u))) \<or>
   insert_post d
     (strip (form_get (req_form req) (lit ''title'') []))
     (slugify L (strip (form_get (req_form req) (lit ''title'') [])))
     (strip (form_get (req_form req) (lit ''summary'') []))
     (strip (form_get (req_form req) (lit ''content_md'') []))
     (render_markdown L (strip (form_get (req_form req) (lit ''content_md'') [])))
     (strip (form_get (req_form req) (lit ''cover_url'') []))
     (if map_of (req_form req) (lit ''published'') = Some (lit ''on'') then 1 else 0)
     now now = Inr (db_after (admin_blog_new L cfg now req d)) \<and>
   returned (admin_blog_new L cfg now req d) =
     Inr (Some (Redirect (UrlFor ''blog_post''
       [(''slug'', PyStr (slugify L (strip (form_get (req_form req) (lit ''title'') []))))])))"
proof (cases "req_method req = POST")
  case False
  then show ?thesis
    by (simp add: admin_blog_new_not_post respond_def render_template_def)
next
  case post: True
  show ?thesis
  proof (cases "ADMIN_PASSWORD cfg")
    case None
    with post show ?thesis
      by (simp add: admin_blog_new_unbound raise_def)
  next
    case (Some pw)
    show ?thesis
    proof (cases "form_get (req_form req) (lit ''password'') [] = pw")
      case False
      with post Some show ?thesis
        by (simp add: admin_blog_new_wrong_password respond_def render_template_def)
    next
      case ok: True
      show ?thesis
      proof (cases "strip (form_get (req_form req) (lit ''title'') []) = [] \<or>
                    strip (form_get (req_form req) (lit ''content_md'') []) = []")
        case True
        with post Some ok show ?thesis
          by (simp add: admin_blog_new_missing respond_def render_template_def)
      next
        case False
        then have "strip (form_get (req_form req) (lit ''title'') []) \<noteq> []"
          and "strip (form_get (req_form req) (lit ''content_md'') []) \<noteq> []"
          by simp_all
        from admin_blog_new_write [OF post Some ok this] show ?thesis
          by (simp add: respond_def raise_def split: sum.splits)
      qed
    qed
  qed
qed

lemma admin_blog_edit_store:
  "db_after (admin_blog_edit L cfg now i req d) = d \<and>
     (\<forall>u. returned (admin_blog_edit L cfg now i req d) \<noteq> Inr (Some (Redirect u))) \<or>
   update_post d
     (strip (form_get (req_form req) (lit ''title'') []))
     (slugify L (strip (form_get (req_form req) (lit ''title'') [])))
     (strip (form_get (req_form req) (lit ''summary'') []))
     (strip (form_get (req_form req) (lit ''content_md'') []))
     (render_markdown L (strip (form_get (req_form req) (lit ''content_md'') [])))
     (strip (form_get (req_form req) (lit ''cover_url'') []))
     (if map_of (req_form req) (lit ''published'') = Some (lit ''on'') then 1 else 0)
     now i = Inr (db_after (admin_blog_edit L cfg now i req d)) \<and>
   (\<exists>row. find (\<lambda>p. post_id p = i) (posts d) = Some row) \<and>
   returned (admin_blog_edit L cfg now i req d) =
     Inr (Some (Redirect (UrlFor ''blog_post''
       [(''slug'', PyStr (slugify L (strip (form_get (req_form req) (lit ''title'') []))))])))"
proof (cases "sqlite_int i")
  case False
  then show ?thesis
    by (simp add: admin_blog_edit_overflow raise_def)
next
  case rng: True
  show ?thesis
  proof (cases "find (\<lambda>p. post_id p = i) (posts d)")
    case None
    with rng show ?thesis
      by (simp add: admin_blog_edit_no_row respond_def render_template_def)
  next
    case row: (Some row)
    show ?thesis
    proof (cases "req_method req = POST")
      case False
      with rng row show ?thesis
        by (simp add: admin_blog_edit_not_post respond_def render_template_def)
    next
      case post: True
      show ?thesis
      proof (cases "ADMIN_PASSWORD cfg")
        case None
        with rng row post show ?thesis
          by (simp add: admin_blog_edit_unbound raise_def)
      next
        case (Some pw)
        show ?thesis
        proof (cases "form_get (req_form req) (lit ''password'') [] = pw")
          case False
          with rng row post Some show ?thesis
            by (simp add: admin_blog_edit_wrong_password respond_def render_template_def)
        next
          case True
          from admin_blog_edit_write [OF rng row post Some True] show ?thesis
            by (simp add: respond_def raise_def row split: sum.splits)
        qed
      qed
    qed
  qed
qed

lemma schema_ok_admin_blog_new:
  assumes "schema_ok d"
  shows "schema_ok (db_after (admin_blog_new L cfg now req d))"
  using assms admin_blog_new_store [of L cfg now req d] schema_ok_insert_post
  by metis

lemma schema_ok_admin_blog_edit:
  assumes "schema_ok d"
  shows "schema_ok (db_after (admin_blog_edit L cfg now i req d))"
  using assms admin_blog_edit_store [of L cfg now i req d] schema_ok_update_post
  by metis

lemma blog_index_reads_only: "db_after (blog_index k d) = d"
  by (simp add: blog_index_def respond_def)

lemma blog_post_reads_only: "db_after (blog_post L s d) = d"
  by (simp add: blog_post_def raise_def respond_def Let_def split: option.splits)

lemma schema_ok_ex_db: "schema_ok ex_db"
  by (simp add: schema_ok_def ex_db_def ex_post_with_html_def ex_post_without_html_def
        ex_post_unpublished_def)

text \<open>The rows that a call of an admin handler wrote: those of the store afterwards
  that the store before did not hold.\<close>

lemma admin_blog_new_written:
  assumes "p \<in> set (posts (db_after (admin_blog_new L cfg now req d)))"
    and "p \<notin> set (posts d)"
  shows "title p = strip (form_get (req_form req) (lit ''title'') []) \<and>
         content_md p = strip (form_get (req_form req) (lit ''content_md'') []) \<and>
         slug p = slugify L (title p) \<and>
         content_html p = render_markdown L (content_md p)"
proof -
  from assms admin_blog_new_store [of L cfg now req d]
  have "insert_post d
     (strip (form_get (req_form req) (lit ''title'') []))
     (slugify L (strip (form_get (req_form req) (lit ''title'') [])))
     (strip (form_get (req_form req) (lit ''summary'') []))
     (strip (form_get (req_form req) (lit ''content_md'') []))
     (render_markdown L (strip (form_get (req_form req) (lit ''content_md'') [])))
     (strip (form_get (req_form req) (lit ''cover_url'') []))
     (if map_of (req_form req) (lit ''published'') = Some (lit ''on'') then 1 else 0)
     now now = Inr (db_after (admin_blog_new L cfg now req d))"
    by auto
  from insert_post_cases(2) [OF this] assms show ?thesis
    by auto
qed

lemma admin_blog_edit_written:
  assumes "p \<in> set (posts (db_after (admin_blog_edit L cfg now i req d)))"
    and "p \<notin> set (posts d)"
  shows "post_id p = i \<and>
         title p = strip (form_get (req_form req) (lit ''title'') []) \<and>
         content_md p = strip (form_get (req_form req) (lit ''content_md'') []) \<and>
         slug p = slugify L (title p) \<and>
         content_html p = render_markdown L (content_md p)"
proof -
  from assms admin_blog_edit_store [of L cfg now i req d]
  have "update_post d
     (strip (form_get (req_form req) (lit ''title'') []))
     (slugify L (strip (form_get (req_form req) (lit ''title'') [])))
     (strip (form_get (req_form req) (lit ''summary'') []))
     (strip (form_get (req_form req) (lit ''content_md'') []))
     (render_markdown L (strip (form_get (req_form req) (lit ''content_md'') [])))
     (strip (form_get (req_form req) (lit ''cover_url'') []))
     (if map_of (req_form req) (lit ''published'') = Some (lit ''on'') then 1 else 0)
     now i = Inr (db_after (admin_blog_edit L cfg now i req d))"
    by auto
  from update_post_rows(4) [OF this] assms obtain q where
    q: "q \<in> set (posts d)" and
    p: "p = (if post_id q = i
             then q\<lparr>title := strip (form_get (req_form req) (lit ''title'') []),
                    slug := slugify L (strip (form_get (req_form req) (lit ''title'') [])),
                    summary := Some (strip (form_get (req_form req) (lit ''summary'') [])),
                    content_md := strip (form_get (req_form req) (lit ''content_md'') []),
                    content_html :=
                      render_markdown L (strip (form_get (req_form req) (lit ''content_md'') [])),
                    cover_url := Some (strip (form_get (req_form req) (lit ''cover_url'') [])),
                    published :=
                      (if map_of (req_form req) (lit ''published'') = Some (lit ''on'')
                       then 1 else 0),
                    updated_at := now\<rparr>
             else q)"
    by auto
  from q assms(2) p have "post_id q = i"
    by (cases "post_id q = i") simp_all
  with p show ?thesis by simp
qed

lemma admin_blog_edit_kept:
  assumes "p \<in> set (posts (db_after (admin_blog_edit L cfg now i req d)))"
    and "post_id p \<noteq> i"
  shows "p \<in> set (posts d)"
  using assms admin_blog_edit_written by blast

lemma update_post_ids:
  assumes "update_post d t s sm cm ch cu pb u i = Inr d'"
  shows "map post_id (posts d') = map post_id (posts d)"
    and "map created_at (posts d') = map created_at (posts d)"
proof -
  define f :: "post \<Rightarrow> post" where
    "f = (\<lambda>p. if post_id p = i
              then p\<lparr>title := t, slug := s, summary := Some sm, content_md := cm,
                     content_html := ch, cover_url := Some cu, published := pb,
                     updated_at := u\<rparr>
              else p)"
  have rows: "posts d' = map f (posts d)"
    using update_post_rows(4) [OF assms] by (simp add: f_def)
  have "post_id (f p) = post_id p" and "created_at (f p) = created_at p" for p
    by (simp_all add: f_def)
  then show "map post_id (posts d') = map post_id (posts d)"
    and "map created_at (posts d') = map created_at (posts d)"
    by (simp_all add: rows)
qed

lemma update_post_row:
  assumes "update_post d t s sm cm ch cu pb u i = Inr d'"
    and "p \<in> set (posts d')" and "post_id p = i"
  shows "title p = t \<and> slug p = s \<and> content_md p = cm \<and> content_html p = ch"
proof -
  define f :: "post \<Rightarrow> post" where
    "f = (\<lambda>p. if post_id p = i
              then p\<lparr>title := t, slug := s, summary := Some sm, content_md := cm,
                     content_html := ch, cover_url := Some cu, published := pb,
                     updated_at := u\<rparr>
              else p)"
  have rows: "posts d' = map f (posts d)"
    using update_post_rows(4) [OF assms(1)] by (simp add: f_def)
  with assms(2) obtain q where q: "p = f q"
    by auto
  have "post_id (f q) = post_id q"
    by (simp add: f_def)
  with q assms(3) have "post_id q = i"
    by simp
  with q show ?thesis
    by (simp add: f_def)
qed

text \<open>The example save, evaluated.\<close>

lemma ex_save_fields:
  "req_method ex_save = POST"
  "form_get (req_form ex_save) (lit ''password'') [] = lit ''s3cret''"
  "strip (form_get (req_form ex_save) (lit ''title'') []) = lit ''New Title''"
  "strip (form_get (req_form ex_save) (lit ''content_md'') []) = lit ''<script>x</script>''"
  "strip (form_get (req_form ex_save) (lit ''summary'') []) = []"
  "strip (form_get (req_form ex_save) (lit ''cover_url'') []) = []"
  "map_of (req_form ex_save) (lit ''published'') = Some (lit ''on'')"
  by (simp_all add: ex_save_def form_get_def strip_def) (simp_all add: lit_def isspace_def)

lemma ex_save_derived:
  "slugify ex_libs (lit ''New Title'') = lit ''new-title''"
  "render_markdown ex_libs (lit ''<script>x</script>'') =
     lit ''&lt;p&gt;&lt;script&gt;x&lt;/script&gt;&lt;/p&gt;''"
  by (simp_all add: render_markdown_def ex_libs_def ex_slugify_def ex_markdown_def ex_clean_def
        ex_escape_def ascii_lower_def lit_def)

lemma ex_find_first: "find (\<lambda>p. post_id p = 1) (posts ex_db) = Some ex_post_with_html"
  by (simp add: ex_db_def ex_post_with_html_def)

lemma ex_ids_fit: "sqlite_int 1" "sqlite_int 9" "\<not> sqlite_int 9223372036854775808"
  by (simp_all add: sqlite_int_def)

lemma ex_new_saves:
  "admin_blog_new ex_libs ex_cfg ex_now ex_save ex_db =
     \<lparr>db_after = ex_db\<lparr>posts := posts ex_db @
          [\<lparr>post_id = 4, title = lit ''New Title'', slug = lit ''new-title'',
            summary = Some [], content_md = lit ''<script>x</script>'',
            content_html = lit ''&lt;p&gt;&lt;script&gt;x&lt;/script&gt;&lt;/p&gt;'',
            cover_url = Some [], published = 1, created_at = ex_now,
            updated_at = ex_now\<rparr>],
          posts_seq := 4\<rparr>,
      flashed = [],
      returned = Inr (Some (Redirect (UrlFor ''blog_post''
                   [(''slug'', PyStr (lit ''new-title''))])))\<rparr>"
proof -
  have c: "ADMIN_PASSWORD ex_cfg = Some (lit ''s3cret'')"
    by (simp add: ex_cfg_def)
  have ne: "lit ''New Title'' \<noteq> []" "lit ''<script>x</script>'' \<noteq> []"
    by (simp_all add: lit_def)
  have i: "insert_post ex_db (lit ''New Title'') (lit ''new-title'') []
             (lit ''<script>x</script>'')
             (lit ''&lt;p&gt;&lt;script&gt;x&lt;/script&gt;&lt;/p&gt;'') [] 1 ex_now ex_now =
           Inr (ex_db\<lparr>posts := posts ex_db @
          [\<lparr>post_id = 4, title = lit ''New Title'', slug = lit ''new-title'',
            summary = Some [], content_md = lit ''<script>x</script>'',
            content_html = lit ''&lt;p&gt;&lt;script&gt;x&lt;/script&gt;&lt;/p&gt;'',
            cover_url = Some [], published = 1, created_at = ex_now,
            updated_at = ex_now\<rparr>],
          posts_seq := 4\<rparr>)"
    by (simp add: insert_post_def Let_def next_rowid_def ex_db_def ex_post_with_html_def
          ex_post_without_html_def ex_post_unpublished_def)
  have "strip (form_get (req_form ex_save) (lit ''title'') []) \<noteq> []"
    and "strip (form_get (req_form ex_save) (lit ''content_md'') []) \<noteq> []"
    by (simp_all add: ex_save_fields ne)
  from admin_blog_new_write [OF ex_save_fields(1) c ex_save_fields(2) this]
  show ?thesis
    by (simp add: ex_save_fields ex_save_derived i respond_def)
qed

lemma ex_edit_saves:
  "admin_blog_edit ex_libs ex_cfg ex_now 1 ex_save ex_db =
     \<lparr>db_after = ex_db\<lparr>posts :=
          [ex_post_with_html
             \<lparr>title := lit ''New Title'', slug := lit ''new-title'', summary := Some [],
              content_md := lit ''<script>x</script>'',
              content_html := lit ''&lt;p&gt;&lt;script&gt;x&lt;/script&gt;&lt;/p&gt;'',
              cover_url := Some [], published := 1, updated_at := ex_now\<rparr>,
           ex_post_without_html, ex_post_unpublished]\<rparr>,
      flashed = [],
      returned = Inr (Some (Redirect (UrlFor ''blog_post''
                   [(''slug'', PyStr (lit ''new-title''))])))\<rparr>"
proof -
  have c: "ADMIN_PASSWORD ex_cfg = Some (lit ''s3cret'')"
    by (simp add: ex_cfg_def)
  have u: "update_post ex_db (lit ''New Title'') (lit ''new-title'') []
             (lit ''<script>x</script>'')
             (lit ''&lt;p&gt;&lt;script&gt;x&lt;/script&gt;&lt;/p&gt;'') [] 1 ex_now 1 =
           Inr (ex_db\<lparr>posts :=
          [ex_post_with_html
             \<lparr>title := lit ''New Title'', slug := lit ''new-title'', summary := Some [],
              content_md := lit ''<script>x</script>'',
              content_html := lit ''&lt;p&gt;&lt;script&gt;x&lt;/script&gt;&lt;/p&gt;'',
              cover_url := Some [], published := 1, updated_at := ex_now\<rparr>,
           ex_post_without_html, ex_post_unpublished]\<rparr>)"
    by (simp add: update_post_def ex_db_def ex_post_with_html_def ex_post_without_html_def
          ex_post_unpublished_def)
  from admin_blog_edit_write [OF ex_ids_fit(1) ex_find_first ex_save_fields(1) c ex_save_fields(2)]
  show ?thesis
    by (simp add: ex_save_fields ex_save_derived u respond_def)
qed

lemma admin_blog_new_redirect_fields:
  assumes "returned (admin_blog_new L cfg now req d) = Inr (Some (Redirect u))"
  shows "req_method req = POST \<and>
         ADMIN_PASSWORD cfg = Some (form_get (req_form req) (lit ''password'') []) \<and>
         strip (form_get (req_form req) (lit ''title'') []) \<noteq> [] \<and>
         strip (form_get (req_form req) (lit ''content_md'') []) \<noteq> []"
proof -
  have post: "req_method req = POST"
  proof (rule ccontr)
    assume "req_method req \<noteq> POST"
    from admin_blog_new_not_post [OF this, of L cfg now d] assms show False
      by (simp add: respond_def render_template_def)
  qed
  obtain pw where cfg: "ADMIN_PASSWORD cfg = Some pw"
  proof (cases "ADMIN_PASSWORD cfg")
    case None
    from admin_blog_new_unbound [OF post None, of L now d] assms have False
      by (simp add: raise_def)
    then show ?thesis ..
  next
    case (Some pw)
    with that show ?thesis .
  qed
  have ok: "form_get (req_form req) (lit ''password'') [] = pw"
  proof (rule ccontr)
    assume "form_get (req_form req) (lit ''password'') [] \<noteq> pw"
    from admin_blog_new_wrong_password [OF post cfg this, of L now d] assms show False
      by (simp add: respond_def render_template_def)
  qed
  have "\<not> (strip (form_get (req_form req) (lit ''title'') []) = [] \<or>
           strip (form_get (req_form req) (lit ''content_md'') []) = [])"
  proof
    assume "strip (form_get (req_form req) (lit ''title'') []) = [] \<or>
            strip (form_get (req_form req) (lit ''content_md'') []) = []"
    from admin_blog_new_missing [OF post cfg ok this, of L now d] assms show False
      by (simp add: respond_def render_template_def)
  qed
  with post cfg ok show ?thesis
    by simp
qed

text \<open>The stand-in sanitiser escapes every \<open><\<close>, so its output has no tag at all.\<close>

lemma html_tag_names_skip:
  "\<forall>x \<in> set xs. x \<noteq> 60 \<Longrightarrow> html_tag_names (xs @ r) = html_tag_names r"
  by (induction xs) simp_all

lemma ex_escape_no_lt: "\<forall>x \<in> set (ex_escape c). x \<noteq> 60"
  by (simp add: ex_escape_def lit_def)

lemma html_tag_names_ex_clean: "html_tag_names (ex_clean html tags attrs) = []"
proof -
  have "html_tag_names (concat (map ex_escape html)) = []"
  proof (induction html)
    case Nil
    show ?case by simp
  next
    case (Cons c cs)
    from html_tag_names_skip [OF ex_escape_no_lt, of c "concat (map ex_escape cs)"] Cons
    show ?case by simp
  qed
  then show ?thesis
    by (simp add: ex_clean_def)
qed

lemma ex_libs_respects_allow_list: "clean_respects_allow_list ex_libs"
  by (simp add: clean_respects_allow_list_def contains_tag_def ex_libs_def
        html_tag_names_ex_clean)

subsection \<open>Lead intake\<close>

text \<open>
  C4. A POST to \<open>/home-evaluation\<close> in which \<open>full_name\<close>, \<open>email\<close> or \<open>address\<close> is empty
  after trimming leaves the store as it was (no lead row is created), flashes the error
  message, and renders the form again with the seven trimmed values that were submitted.
\<close>

theorem home_evaluation_blank_redisplays:
  assumes "req_method req = POST"
    and "strip (form_get (req_form req) (lit ''full_name'') []) = [] \<or>
         strip (form_get (req_form req) (lit ''email'') []) = [] \<or>
         strip (form_get (req_form req) (lit ''address'') []) = []"
  shows "db_after (home_evaluation now req d) = d \<and>
         flashed (home_evaluation now req d) =
           [''Name, email, and property address are required.''] \<and>
         returned (home_evaluation now req d) =
           Inr (Some (Render ''home_evaluation.html''
             [(''form'', CForm
                [(lit ''full_name'', strip (form_get (req_form req) (lit ''full_name'') [])),
                 (lit ''email'', strip (form_get (req_form req) (lit ''email'') [])),
                 (lit ''phone'', strip (form_get (req_form req) (lit ''phone'') [])),
                 (lit ''address'', strip (form_get (req_form req) (lit ''address'') [])),
                 (lit ''property_type'',
                    strip (form_get (req_form req) (lit ''property_type'') [])),
                 (lit ''timeframe'', strip (form_get (req_form req) (lit ''timeframe'') [])),
                 (lit ''notes'', strip (form_get (req_form req) (lit ''notes'') []))])] 200))"
  using assms by (simp add: home_evaluation_def Let_def respond_def render_template_def)

theorem home_evaluation_blank_redisplays_witness:
  "req_method ex_lead_blank = POST \<and>
   strip (form_get (req_form ex_lead_blank) (lit ''email'') []) = [] \<and>
   db_after (home_evaluation ex_now ex_lead_blank init_db) = init_db \<and>
   flashed (home_evaluation ex_now ex_lead_blank init_db) =
     [''Name, email, and property address are required.'']"
proof -
  have m: "req_method ex_lead_blank = POST"
    by (simp add: ex_lead_blank_def)
  have e: "strip (form_get (req_form ex_lead_blank) (lit ''email'') []) = []"
    by (simp add: ex_lead_blank_def form_get_def strip_def) (simp add: lit_def isspace_def)
  from home_evaluation_blank_redisplays [of ex_lead_blank ex_now init_db] m e
  show ?thesis by blast
qed

text \<open>
  C5. A POST to \<open>/home-evaluation\<close> whose \<open>full_name\<close>, \<open>email\<close> and \<open>address\<close> are
  non-empty after trimming appends exactly one row to \<open>home_eval_leads\<close>, under a key no
  earlier row has; the row holds the trimmed values and \<open>created_at\<close> is the UTC time
  read during the request. The \<open>posts\<close> table is untouched and the response redirects to
  the \<open>schedule\<close> endpoint with \<open>name\<close> and \<open>email\<close> equal to the trimmed values.
\<close>

theorem home_evaluation_inserts_one_lead:
  assumes "req_method req = POST"
    and "strip (form_get (req_form req) (lit ''full_name'') []) \<noteq> []"
    and "strip (form_get (req_form req) (lit ''email'') []) \<noteq> []"
    and "strip (form_get (req_form req) (lit ''address'') []) \<noteq> []"
  shows "\<exists>l. home_eval_leads (db_after (home_evaluation now req d)) = home_eval_leads d @ [l] \<and>
           lead_id l \<notin> set (map lead_id (home_eval_leads d)) \<and>
           full_name l = strip (form_get (req_form req) (lit ''full_name'') []) \<and>
           email l = strip (form_get (req_form req) (lit ''email'') []) \<and>
           phone l = Some (strip (form_get (req_form req) (lit ''phone'') [])) \<and>
           address l = strip (form_get (req_form req) (lit ''address'') []) \<and>
           property_type l = Some (strip (form_get (req_form req) (lit ''property_type'') [])) \<and>
           timeframe l = Some (strip (form_get (req_form req) (lit ''timeframe'') [])) \<and>
           lead_notes l = Some (strip (form_get (req_form req) (lit ''notes'') [])) \<and>
           lead_created_at l = now \<and>
           posts (db_after (home_evaluation now req d)) = posts d \<and>
           returned (home_evaluation now req d) =
             Inr (Some (Redirect (UrlFor ''schedule''
               [(''name'', PyStr (strip (form_get (req_form req) (lit ''full_name'') []))),
                (''email'', PyStr (strip (form_get (req_form req) (lit ''email'') [])))])))"
proof -
  have "next_rowid (leads_seq d) (map lead_id (home_eval_leads d))
          \<notin> set (map lead_id (home_eval_leads d))"
    using next_rowid_fresh by blast
  with assms show ?thesis
    by (simp add: home_evaluation_def Let_def respond_def insert_lead_def)
qed

theorem home_evaluation_inserts_one_lead_witness:
  "home_eval_leads (db_after (home_evaluation ex_now ex_lead_ok init_db)) =
     [\<lparr>lead_id = 1, full_name = lit ''Ann Lee'', email = lit ''ann@example.org'',
       phone = Some [], address = lit ''1 Main St'', property_type = Some [],
       timeframe = Some [], lead_notes = Some (lit ''call me''), lead_created_at = ex_now\<rparr>] \<and>
   returned (home_evaluation ex_now ex_lead_ok init_db) =
     Inr (Some (Redirect (UrlFor ''schedule''
        [(''name'', PyStr (lit ''Ann Lee'')), (''email'', PyStr (lit ''ann@example.org''))])))"
proof -
  have m: "req_method ex_lead_ok = POST"
    by (simp add: ex_lead_ok_def)
  have n: "strip (form_get (req_form ex_lead_ok) (lit ''full_name'') []) = lit ''Ann Lee''"
    by (simp add: ex_lead_ok_def form_get_def strip_def) (simp add: lit_def isspace_def)
  have e: "strip (form_get (req_form ex_lead_ok) (lit ''email'') []) = lit ''ann@example.org''"
    by (simp add: ex_lead_ok_def form_get_def strip_def) (simp add: lit_def isspace_def)
  have a: "strip (form_get (req_form ex_lead_ok) (lit ''address'') []) = lit ''1 Main St''"
    by (simp add: ex_lead_ok_def form_get_def strip_def) (simp add: lit_def isspace_def)
  have ne: "lit ''Ann Lee'' \<noteq> []" "lit ''ann@example.org'' \<noteq> []" "lit ''1 Main St'' \<noteq> []"
    by (simp_all add: lit_def)
  from home_evaluation_inserts_one_lead [of ex_lead_ok ex_now init_db] m n e a ne
  have r: "returned (home_evaluation ex_now ex_lead_ok init_db) =
     Inr (Some (Redirect (UrlFor ''schedule''
        [(''name'', PyStr (lit ''Ann Lee'')), (''email'', PyStr (lit ''ann@example.org''))])))"
    by auto
  have "home_eval_leads (db_after (home_evaluation ex_now ex_lead_ok init_db)) =
     [\<lparr>lead_id = 1, full_name = lit ''Ann Lee'', email = lit ''ann@example.org'',
       phone = Some [], address = lit ''1 Main St'', property_type = Some [],
       timeframe = Some [], lead_notes = Some (lit ''call me''), lead_created_at = ex_now\<rparr>]"
    apply (simp add: home_evaluation_def Let_def respond_def insert_lead_def n e a ne m)
    apply (simp add: init_db_def next_rowid_def ex_lead_ok_def form_get_def strip_def)
    apply (simp add: lit_def isspace_def)
    done
  with r show ?thesis by blast
qed

subsection \<open>Blog listing and detail\<close>

text \<open>
  C1. For a published post found by its slug, \<open>blog_post\<close> returns a rendered response
  exactly when the stored \<open>content_html\<close> is empty after stripping and \<open>content_md\<close> is
  non-empty (the fallback that renders the Markdown); otherwise the function ends without
  returning anything. In particular, when \<open>content_html\<close> is populated no response is
  produced.
\<close>

theorem blog_post_returns_only_in_fallback:
  assumes "find (\<lambda>p. slug p = s \<and> published p = 1) (posts d) = Some p"
  shows "returned (blog_post L s d) =
           (if strip (content_html p) = [] \<and> content_md p \<noteq> [] then
              Inr (Some (Render ''blog_post.html''
                [(''post'', CDetail (detail_of p)),
                 (''content_html'', CStr (render_markdown L (content_md p))),
                 (''edit_url'',
                    CUrl (UrlFor ''admin_blog_edit'' [(''post_id'', PyInt (post_id p))]))]
                200))
            else Inr None) \<and>
         (strip (content_html p) \<noteq> [] \<longrightarrow> returned (blog_post L s d) = Inr None)"
  using assms
  by (simp add: blog_post_def blog_post_query_def Let_def respond_def render_template_def
        detail_of_def)

theorem blog_post_returns_only_in_fallback_witness:
  "find (\<lambda>p. slug p = lit ''hello'' \<and> published p = 1) (posts ex_db) = Some ex_post_with_html \<and>
   strip (content_html ex_post_with_html) \<noteq> [] \<and>
   returned (blog_post ex_libs (lit ''hello'') ex_db) = Inr None"
proof -
  have f: "find (\<lambda>p. slug p = lit ''hello'' \<and> published p = 1) (posts ex_db) =
             Some ex_post_with_html"
    by (simp add: ex_db_def ex_post_with_html_def)
  have h: "strip (content_html ex_post_with_html) \<noteq> []"
    by (simp add: ex_post_with_html_def strip_def lit_def isspace_def)
  from blog_post_returns_only_in_fallback [OF f, of ex_libs] f h show ?thesis
    by blast
qed

text \<open>
  C6. In a store that satisfies the schema, a post with \<open>published = 0\<close> has no row in the
  listing of \<open>blog_index\<close>, and \<open>blog_post\<close> called with its slug aborts with not-found.
  Both queries select only posts with \<open>published = 1\<close>: every row of the listing, and every
  row the detail query finds, comes from such a post.
\<close>

theorem unpublished_post_is_hidden:
  assumes "schema_ok d" and "p \<in> set (posts d)" and "published p = 0"
  shows "returned (blog_index k d) =
           Inr (Some (Render ''blog_index.html''
                        [(''posts'', CRows (blog_index_query k d))] 200)) \<and>
         (\<forall>r \<in> set (blog_index_query k d). l_id r \<noteq> post_id p) \<and>
         (\<forall>r \<in> set (blog_index_query k d).
            \<exists>q \<in> set (posts d). published q = 1 \<and> r = listing_of q) \<and>
         returned (blog_post L (slug p) d) = Inl NotFound \<and>
         (\<forall>s x. blog_post_query d s = Some x \<longrightarrow>
            (\<exists>q \<in> set (posts d). published q = 1 \<and> slug q = s \<and> x = detail_of q))"
proof -
  have ids: "distinct (map post_id (posts d))" and slugs: "distinct (map slug (posts d))"
    using assms(1) by (simp_all add: schema_ok_def)
  have a: "returned (blog_index k d) =
           Inr (Some (Render ''blog_index.html'' [(''posts'', CRows (blog_index_query k d))] 200))"
    by (simp add: blog_index_def respond_def render_template_def)
  have sel: "set (blog_index_query k d) = listing_of ` {q \<in> set (posts d). published q = 1}"
    by (simp add: blog_index_query_def)
  have b: "\<forall>r \<in> set (blog_index_query k d). l_id r \<noteq> post_id p"
  proof
    fix r assume "r \<in> set (blog_index_query k d)"
    then obtain q where q: "q \<in> set (posts d)" "published q = 1" "r = listing_of q"
      using sel by auto
    have "post_id q = post_id p \<Longrightarrow> q = p"
      using ids q(1) assms(2) by (rule same_id_same_row)
    with q assms(3) show "l_id r \<noteq> post_id p"
      by (auto simp: listing_of_def)
  qed
  have c: "\<forall>r \<in> set (blog_index_query k d).
             \<exists>q \<in> set (posts d). published q = 1 \<and> r = listing_of q"
    using sel by auto
  have "find (\<lambda>q. slug q = slug p \<and> published q = 1) (posts d) = None"
  proof (cases "find (\<lambda>q. slug q = slug p \<and> published q = 1) (posts d)")
    case None
    then show ?thesis .
  next
    case (Some q)
    then have q: "q \<in> set (posts d)" "slug q = slug p" "published q = 1"
      using find_published by blast+
    from slugs q(1) assms(2) q(2) have "q = p"
      by (rule same_slug_same_row)
    with q(3) assms(3) show ?thesis by simp
  qed
  then have e: "returned (blog_post L (slug p) d) = Inl NotFound"
    by (simp add: blog_post_def blog_post_query_def raise_def)
  have f: "\<forall>s x. blog_post_query d s = Some x \<longrightarrow>
            (\<exists>q \<in> set (posts d). published q = 1 \<and> slug q = s \<and> x = detail_of q)"
    using find_published by (fastforce simp: blog_post_query_def)
  from a b c e f show ?thesis by blast
qed

theorem unpublished_post_is_hidden_witness:
  "schema_ok ex_db \<and> ex_post_unpublished \<in> set (posts ex_db) \<and>
   published ex_post_unpublished = 0 \<and>
   map l_id (blog_index_query ex_sql_datetime ex_db) = [2, 1] \<and>
   blog_post_query ex_db (lit ''old'') = Some (detail_of ex_post_without_html) \<and>
   post_id ex_post_unpublished \<notin> set (map l_id (blog_index_query ex_sql_datetime ex_db)) \<and>
   returned (blog_post ex_libs (lit ''draft'') ex_db) = Inl NotFound"
proof -
  have m: "ex_post_unpublished \<in> set (posts ex_db)"
    by (simp add: ex_db_def)
  have u: "published ex_post_unpublished = 0"
    by (simp add: ex_post_unpublished_def)
  have i: "post_id ex_post_unpublished = 3" and s: "slug ex_post_unpublished = lit ''draft''"
    by (simp_all add: ex_post_unpublished_def)
  have l: "map l_id (blog_index_query ex_sql_datetime ex_db) = [2, 1]"
    by (simp add: blog_index_query_def ex_db_def ex_post_with_html_def ex_post_without_html_def
          ex_post_unpublished_def listing_of_def ex_sql_datetime_def lit_def)
  have q: "blog_post_query ex_db (lit ''old'') = Some (detail_of ex_post_without_html)"
    by (simp add: blog_post_query_def ex_db_def ex_post_with_html_def ex_post_without_html_def)
  from unpublished_post_is_hidden [OF schema_ok_ex_db m u, of ex_sql_datetime ex_libs]
  have "post_id ex_post_unpublished \<notin> set (map l_id (blog_index_query ex_sql_datetime ex_db))"
    and "returned (blog_post ex_libs (slug ex_post_unpublished) ex_db) = Inl NotFound"
    by auto
  with schema_ok_ex_db m u s l q show ?thesis
    by simp
qed

subsection \<open>Admin create and edit: rejected submissions\<close>

text \<open>
  C3, as the code has it. A POST whose password differs from the configured one changes
  nothing in the store. \<open>admin_blog_new\<close> flashes the error and renders the edit form with
  the submitted form. \<open>admin_blog_edit\<close> first looks the post up. When the id does not fit
  SQLite's 64-bit integer the lookup raises \<open>OverflowError\<close>. Otherwise, when a post has
  the id the handler flashes the error and renders the edit form with the submitted form
  and the stored row, and when no post has the id it returns the 404 page, without a
  message.
\<close>

theorem wrong_password_changes_nothing:
  assumes "req_method req = POST" and "ADMIN_PASSWORD cfg = Some pw"
    and "form_get (req_form req) (lit ''password'') [] \<noteq> pw"
  shows "admin_blog_new L cfg now req d =
           \<lparr>db_after = d, flashed = [''Invalid admin password.''],
            returned = Inr (Some (Render ''admin_post_edit.html''
              [(''form'', CForm (req_form req)), (''mode'', CStr (lit ''new''))] 200))\<rparr> \<and>
         admin_blog_edit L cfg now i req d =
           (if \<not> sqlite_int i then
              \<lparr>db_after = d, flashed = [], returned = Inl OverflowError\<rparr>
            else
              case find (\<lambda>p. post_id p = i) (posts d) of
                None \<Rightarrow>
                  \<lparr>db_after = d, flashed = [],
                   returned = Inr (Some (Render ''404.html'' [] 404))\<rparr>
              | Some row \<Rightarrow>
                  \<lparr>db_after = d, flashed = [''Invalid admin password.''],
                   returned = Inr (Some (Render ''admin_post_edit.html''
                     [(''form'', CForm (req_form req)), (''mode'', CStr (lit ''edit'')),
                      (''post'', CRow row)] 200))\<rparr>)"
proof -
  have "admin_blog_new L cfg now req d =
           \<lparr>db_after = d, flashed = [''Invalid admin password.''],
            returned = Inr (Some (Render ''admin_post_edit.html''
              [(''form'', CForm (req_form req)), (''mode'', CStr (lit ''new''))] 200))\<rparr>"
    using assms by (simp add: admin_blog_new_wrong_password respond_def render_template_def)
  moreover have "admin_blog_edit L cfg now i req d =
           (if \<not> sqlite_int i then
              \<lparr>db_after = d, flashed = [], returned = Inl OverflowError\<rparr>
            else
              case find (\<lambda>p. post_id p = i) (posts d) of
                None \<Rightarrow>
                  \<lparr>db_after = d, flashed = [],
                   returned = Inr (Some (Render ''404.html'' [] 404))\<rparr>
              | Some row \<Rightarrow>
                  \<lparr>db_after = d, flashed = [''Invalid admin password.''],
                   returned = Inr (Some (Render ''admin_post_edit.html''
                     [(''form'', CForm (req_form req)), (''mode'', CStr (lit ''edit'')),
                      (''post'', CRow row)] 200))\<rparr>)"
  proof (cases "sqlite_int i")
    case False
    then show ?thesis
      by (simp add: admin_blog_edit_overflow raise_def)
  next
    case rng: True
    show ?thesis
    proof (cases "find (\<lambda>p. post_id p = i) (posts d)")
      case None
      with rng show ?thesis
        by (simp add: admin_blog_edit_no_row respond_def)
    next
      case (Some row)
      with rng assms show ?thesis
        by (simp add: admin_blog_edit_wrong_password respond_def render_template_def)
    qed
  qed
  ultimately show ?thesis by blast
qed

theorem wrong_password_changes_nothing_witness:
  "req_method ex_wrong_password = POST \<and> ADMIN_PASSWORD ex_cfg = Some (lit ''s3cret'') \<and>
   form_get (req_form ex_wrong_password) (lit ''password'') [] \<noteq> lit ''s3cret'' \<and>
   db_after (admin_blog_new ex_libs ex_cfg ex_now ex_wrong_password ex_db) = ex_db \<and>
   flashed (admin_blog_new ex_libs ex_cfg ex_now ex_wrong_password ex_db) =
     [''Invalid admin password.''] \<and>
   admin_blog_edit ex_libs ex_cfg ex_now 1 ex_wrong_password ex_db =
     \<lparr>db_after = ex_db, flashed = [''Invalid admin password.''],
      returned = Inr (Some (Render ''admin_post_edit.html''
        [(''form'', CForm (req_form ex_wrong_password)), (''mode'', CStr (lit ''edit'')),
         (''post'', CRow ex_post_with_html)] 200))\<rparr> \<and>
   admin_blog_edit ex_libs ex_cfg ex_now 9223372036854775808 ex_wrong_password ex_db =
     \<lparr>db_after = ex_db, flashed = [], returned = Inl OverflowError\<rparr>"
proof -
  have m: "req_method ex_wrong_password = POST"
    by (simp add: ex_wrong_password_def)
  have c: "ADMIN_PASSWORD ex_cfg = Some (lit ''s3cret'')"
    by (simp add: ex_cfg_def)
  have w: "form_get (req_form ex_wrong_password) (lit ''password'') [] \<noteq> lit ''s3cret''"
    by (simp add: ex_wrong_password_def form_get_def)
  have f: "find (\<lambda>p. post_id p = 1) (posts ex_db) = Some ex_post_with_html"
    by (simp add: ex_db_def ex_post_with_html_def)
  from wrong_password_changes_nothing [OF m c w, of ex_libs ex_now ex_db 1] f
  have a: "db_after (admin_blog_new ex_libs ex_cfg ex_now ex_wrong_password ex_db) = ex_db"
    and b: "flashed (admin_blog_new ex_libs ex_cfg ex_now ex_wrong_password ex_db) =
      [''Invalid admin password.'']"
    and e: "admin_blog_edit ex_libs ex_cfg ex_now 1 ex_wrong_password ex_db =
     \<lparr>db_after = ex_db, flashed = [''Invalid admin password.''],
      returned = Inr (Some (Render ''admin_post_edit.html''
        [(''form'', CForm (req_form ex_wrong_password)), (''mode'', CStr (lit ''edit'')),
         (''post'', CRow ex_post_with_html)] 200))\<rparr>"
    by (simp_all add: ex_ids_fit)
  from wrong_password_changes_nothing
    [OF m c w, of ex_libs ex_now ex_db 9223372036854775808]
  have o: "admin_blog_edit ex_libs ex_cfg ex_now 9223372036854775808 ex_wrong_password ex_db =
     \<lparr>db_after = ex_db, flashed = [], returned = Inl OverflowError\<rparr>"
    by (simp add: ex_ids_fit)
  from m c w a b e o show ?thesis
    by blast
qed

text \<open>
  C3, as stated, fails: a POST with a wrong password to the edit route of an id that no
  post has is answered with the 404 page and no message, not with the edit form.
\<close>

theorem wrong_password_unknown_id_counterexample:
  "req_method ex_wrong_password = POST \<and> ADMIN_PASSWORD ex_cfg = Some (lit ''s3cret'') \<and>
   form_get (req_form ex_wrong_password) (lit ''password'') [] \<noteq> lit ''s3cret'' \<and>
   returned (admin_blog_edit ex_libs ex_cfg ex_now 9 ex_wrong_password ex_db) =
     Inr (Some (Render ''404.html'' [] 404)) \<and>
   flashed (admin_blog_edit ex_libs ex_cfg ex_now 9 ex_wrong_password ex_db) = []"
proof -
  have m: "req_method ex_wrong_password = POST"
    by (simp add: ex_wrong_password_def)
  have c: "ADMIN_PASSWORD ex_cfg = Some (lit ''s3cret'')"
    by (simp add: ex_cfg_def)
  have w: "form_get (req_form ex_wrong_password) (lit ''password'') [] \<noteq> lit ''s3cret''"
    by (simp add: ex_wrong_password_def form_get_def)
  have f: "find (\<lambda>p. post_id p = 9) (posts ex_db) = None"
    by (simp add: ex_db_def ex_post_with_html_def ex_post_without_html_def
          ex_post_unpublished_def)
  from m c w admin_blog_edit_no_row [OF ex_ids_fit(2) f, of ex_libs ex_cfg ex_now ex_wrong_password]
  show ?thesis by (simp add: respond_def)
qed

text \<open>
  C2 on the create route holds (lemma \<open>admin_blog_new_missing\<close>). On the edit route it does
  not: \<open>admin_blog_edit\<close> has no check of title and content. With the right password and a
  title that is blank, the row is overwritten with an empty title and slug, nothing is
  flashed, and the response is the redirect.
\<close>

theorem admin_blog_edit_accepts_missing_title:
  "req_method ex_missing_title = POST \<and>
   form_get (req_form ex_missing_title) (lit ''password'') [] = lit ''s3cret'' \<and>
   strip (form_get (req_form ex_missing_title) (lit ''title'') []) = [] \<and>
   admin_blog_edit ex_libs ex_cfg ex_now 1 ex_missing_title ex_db =
     \<lparr>db_after = ex_db\<lparr>posts :=
         [ex_post_with_html
            \<lparr>title := [], slug := [], summary := Some [], content_md := lit ''Text'',
             content_html := lit ''&lt;p&gt;Text&lt;/p&gt;'', cover_url := Some [],
             published := 0, updated_at := ex_now\<rparr>,
          ex_post_without_html, ex_post_unpublished]\<rparr>,
      flashed = [],
      returned = Inr (Some (Redirect (UrlFor ''blog_post'' [(''slug'', PyStr [])])))\<rparr> \<and>
   posts (db_after (admin_blog_edit ex_libs ex_cfg ex_now 1 ex_missing_title ex_db)) \<noteq>
     posts ex_db"
proof -
  have m: "req_method ex_missing_title = POST"
    by (simp add: ex_missing_title_def)
  have c: "ADMIN_PASSWORD ex_cfg = Some (lit ''s3cret'')"
    by (simp add: ex_cfg_def)
  have w: "form_get (req_form ex_missing_title) (lit ''password'') [] = lit ''s3cret''"
    by (simp add: ex_missing_title_def form_get_def)
  have f: "find (\<lambda>p. post_id p = 1) (posts ex_db) = Some ex_post_with_html"
    by (simp add: ex_db_def ex_post_with_html_def)
  have t: "strip (form_get (req_form ex_missing_title) (lit ''title'') []) = []"
    by (simp add: ex_missing_title_def form_get_def strip_def) (simp add: lit_def isspace_def)
  have b: "strip (form_get (req_form ex_missing_title) (lit ''content_md'') []) = lit ''Text''"
    by (simp add: ex_missing_title_def form_get_def strip_def) (simp add: lit_def isspace_def)
  have o: "strip (form_get (req_form ex_missing_title) (lit ''summary'') []) = []"
    "strip (form_get (req_form ex_missing_title) (lit ''cover_url'') []) = []"
    "map_of (req_form ex_missing_title) (lit ''published'') = None"
    by (simp_all add: ex_missing_title_def form_get_def strip_def)
  have h: "render_markdown ex_libs (lit ''Text'') = lit ''&lt;p&gt;Text&lt;/p&gt;''"
    by (simp add: render_markdown_def ex_libs_def ex_markdown_def ex_clean_def ex_escape_def
          lit_def)
  have s: "slugify ex_libs [] = []"
    by (simp add: ex_libs_def ex_slugify_def)
  have u: "update_post ex_db [] [] [] (lit ''Text'') (lit ''&lt;p&gt;Text&lt;/p&gt;'') [] 0 ex_now 1 =
      Inr (ex_db\<lparr>posts :=
         [ex_post_with_html
            \<lparr>title := [], slug := [], summary := Some [], content_md := lit ''Text'',
             content_html := lit ''&lt;p&gt;Text&lt;/p&gt;'', cover_url := Some [],
             published := 0, updated_at := ex_now\<rparr>,
          ex_post_without_html, ex_post_unpublished]\<rparr>)"
    by (simp add: update_post_def ex_db_def ex_post_with_html_def ex_post_without_html_def
          ex_post_unpublished_def lit_def)
  have e: "admin_blog_edit ex_libs ex_cfg ex_now 1 ex_missing_title ex_db =
     \<lparr>db_after = ex_db\<lparr>posts :=
         [ex_post_with_html
            \<lparr>title := [], slug := [], summary := Some [], content_md := lit ''Text'',
             content_html := lit ''&lt;p&gt;Text&lt;/p&gt;'', cover_url := Some [],
             published := 0, updated_at := ex_now\<rparr>,
          ex_post_without_html, ex_post_unpublished]\<rparr>,
      flashed = [],
      returned = Inr (Some (Redirect (UrlFor ''blog_post'' [(''slug'', PyStr [])])))\<rparr>"
    by (simp add: admin_blog_edit_write [OF ex_ids_fit(1) f m c w] t b o h s u respond_def)
  have "posts (ex_db\<lparr>posts :=
         [ex_post_with_html
            \<lparr>title := [], slug := [], summary := Some [], content_md := lit ''Text'',
             content_html := lit ''&lt;p&gt;Text&lt;/p&gt;'', cover_url := Some [],
             published := 0, updated_at := ex_now\<rparr>,
          ex_post_without_html, ex_post_unpublished]\<rparr>) \<noteq> posts ex_db"
    by (simp add: ex_db_def ex_post_with_html_def lit_def)
  then have "posts (db_after (admin_blog_edit ex_libs ex_cfg ex_now 1 ex_missing_title ex_db)) \<noteq>
      posts ex_db"
    by (simp add: e)
  with m w t e show ?thesis by blast
qed

subsection \<open>Admin create and edit: what a save writes\<close>

text \<open>
  C9. A successful save is a call that returns the redirect. After a successful create the
  \<open>posts\<close> table is the old one followed by one new row; after a successful edit the
  table has a row with the given id. In both cases the saved row holds the trimmed title
  and Markdown of the form, its slug is \<open>slugify\<close> of that title and its \<open>content_html\<close> is
  \<open>render_markdown\<close> of that Markdown. No other source ever reaches \<open>content_html\<close>: every
  row that either admin handler writes, on any request, has \<open>content_html\<close> equal to
  \<open>render_markdown\<close> of its own \<open>content_md\<close>, and the other three handlers leave the
  \<open>posts\<close> table as it was.
\<close>

theorem save_derives_slug_and_html:
  "(returned (admin_blog_new L cfg now req d) = Inr (Some (Redirect u)) \<longrightarrow>
      (\<exists>p. posts (db_after (admin_blog_new L cfg now req d)) = posts d @ [p] \<and>
           title p = strip (form_get (req_form req) (lit ''title'') []) \<and>
           content_md p = strip (form_get (req_form req) (lit ''content_md'') []) \<and>
           slug p = slugify L (title p) \<and>
           content_html p = render_markdown L (content_md p))) \<and>
   (returned (admin_blog_edit L cfg now i req d) = Inr (Some (Redirect u)) \<longrightarrow>
      (\<exists>p \<in> set (posts (db_after (admin_blog_edit L cfg now i req d))). post_id p = i) \<and>
      (\<forall>p \<in> set (posts (db_after (admin_blog_edit L cfg now i req d))).
         post_id p = i \<longrightarrow>
           title p = strip (form_get (req_form req) (lit ''title'') []) \<and>
           content_md p = strip (form_get (req_form req) (lit ''content_md'') []) \<and>
           slug p = slugify L (title p) \<and>
           content_html p = render_markdown L (content_md p))) \<and>
   (\<forall>p \<in> set (posts (db_after (admin_blog_new L cfg now req d))).
      p \<notin> set (posts d) \<longrightarrow> content_html p = render_markdown L (content_md p)) \<and>
   (\<forall>p \<in> set (posts (db_after (admin_blog_edit L cfg now i req d))).
      p \<notin> set (posts d) \<longrightarrow> content_html p = render_markdown L (content_md p)) \<and>
   posts (db_after (home_evaluation now req d)) = posts d \<and>
   posts (db_after (blog_index k d)) = posts d \<and>
   posts (db_after (blog_post L s d)) = posts d"
proof -
  let ?t = "strip (form_get (req_form req) (lit ''title'') [])"
  let ?m = "strip (form_get (req_form req) (lit ''content_md'') [])"
  let ?sm = "strip (form_get (req_form req) (lit ''summary'') [])"
  let ?cu = "strip (form_get (req_form req) (lit ''cover_url'') [])"
  let ?pb = "if map_of (req_form req) (lit ''published'') = Some (lit ''on'') then 1 else 0 :: int"
  have create: "\<exists>p. posts (db_after (admin_blog_new L cfg now req d)) = posts d @ [p] \<and>
           title p = ?t \<and> content_md p = ?m \<and> slug p = slugify L (title p) \<and>
           content_html p = render_markdown L (content_md p)"
    if "returned (admin_blog_new L cfg now req d) = Inr (Some (Redirect u))"
  proof -
    from that admin_blog_new_store [of L cfg now req d]
    have "insert_post d ?t (slugify L ?t) ?sm ?m (render_markdown L ?m) ?cu ?pb now now =
            Inr (db_after (admin_blog_new L cfg now req d))"
      by auto
    from insert_post_cases(2) [OF this] show ?thesis
      by simp
  qed
  have edit: "(\<exists>p \<in> set (posts (db_after (admin_blog_edit L cfg now i req d))). post_id p = i) \<and>
      (\<forall>p \<in> set (posts (db_after (admin_blog_edit L cfg now i req d))).
         post_id p = i \<longrightarrow>
           title p = ?t \<and> content_md p = ?m \<and> slug p = slugify L (title p) \<and>
           content_html p = render_markdown L (content_md p))"
    if "returned (admin_blog_edit L cfg now i req d) = Inr (Some (Redirect u))"
  proof -
    from that admin_blog_edit_store [of L cfg now i req d]
    have u: "update_post d ?t (slugify L ?t) ?sm ?m (render_markdown L ?m) ?cu ?pb now i =
            Inr (db_after (admin_blog_edit L cfg now i req d))"
      and "\<exists>row. find (\<lambda>p. post_id p = i) (posts d) = Some row"
      by auto
    then obtain row where "row \<in> set (posts d)" "post_id row = i"
      using find_by_id by blast
    then have "i \<in> set (map post_id (posts d))"
      by force
    then have "i \<in> set (map post_id (posts (db_after (admin_blog_edit L cfg now i req d))))"
      by (simp only: update_post_ids(1) [OF u])
    then have "\<exists>p \<in> set (posts (db_after (admin_blog_edit L cfg now i req d))). post_id p = i"
      by auto
    with update_post_row [OF u] show ?thesis
      by simp
  qed
  have w1: "\<forall>p \<in> set (posts (db_after (admin_blog_new L cfg now req d))).
      p \<notin> set (posts d) \<longrightarrow> content_html p = render_markdown L (content_md p)"
    using admin_blog_new_written by blast
  have w2: "\<forall>p \<in> set (posts (db_after (admin_blog_edit L cfg now i req d))).
      p \<notin> set (posts d) \<longrightarrow> content_html p = render_markdown L (content_md p)"
    using admin_blog_edit_written by blast
  have r: "posts (db_after (home_evaluation now req d)) = posts d"
    by (simp add: home_evaluation_def Let_def respond_def insert_lead_rows)
  from create edit w1 w2 r show ?thesis
    by (simp add: blog_index_reads_only blog_post_reads_only)
qed

theorem save_derives_slug_and_html_witness:
  "returned (admin_blog_new ex_libs ex_cfg ex_now ex_save ex_db) =
     Inr (Some (Redirect (UrlFor ''blog_post'' [(''slug'', PyStr (lit ''new-title''))]))) \<and>
   returned (admin_blog_edit ex_libs ex_cfg ex_now 1 ex_save ex_db) =
     Inr (Some (Redirect (UrlFor ''blog_post'' [(''slug'', PyStr (lit ''new-title''))]))) \<and>
   (\<exists>p. posts (db_after (admin_blog_new ex_libs ex_cfg ex_now ex_save ex_db)) =
          posts ex_db @ [p] \<and>
        title p = strip (form_get (req_form ex_save) (lit ''title'') []) \<and>
        slug p = slugify ex_libs (title p) \<and>
        content_html p = render_markdown ex_libs (content_md p)) \<and>
   (\<exists>p \<in> set (posts (db_after (admin_blog_edit ex_libs ex_cfg ex_now 1 ex_save ex_db))).
        post_id p = 1 \<and> title p = strip (form_get (req_form ex_save) (lit ''title'') []) \<and>
        slug p = slugify ex_libs (title p) \<and>
        content_html p = render_markdown ex_libs (content_md p))"
proof -
  let ?u = "UrlFor ''blog_post'' [(''slug'', PyStr (lit ''new-title''))]"
  have n: "returned (admin_blog_new ex_libs ex_cfg ex_now ex_save ex_db) =
             Inr (Some (Redirect ?u))"
    by (simp add: ex_new_saves)
  have e: "returned (admin_blog_edit ex_libs ex_cfg ex_now 1 ex_save ex_db) =
             Inr (Some (Redirect ?u))"
    by (simp add: ex_edit_saves)
  note t = save_derives_slug_and_html
    [of ex_libs ex_cfg ex_now ex_save ex_db ?u 1 ex_sql_datetime "lit ''hello''"]
  from t [THEN conjunct1, THEN mp, OF n]
  have c: "\<exists>p. posts (db_after (admin_blog_new ex_libs ex_cfg ex_now ex_save ex_db)) =
          posts ex_db @ [p] \<and>
        title p = strip (form_get (req_form ex_save) (lit ''title'') []) \<and>
        slug p = slugify ex_libs (title p) \<and>
        content_html p = render_markdown ex_libs (content_md p)"
    by blast
  from t [THEN conjunct2, THEN conjunct1, THEN mp, OF e]
  have "\<exists>p \<in> set (posts (db_after (admin_blog_edit ex_libs ex_cfg ex_now 1 ex_save ex_db))).
        post_id p = 1 \<and> title p = strip (form_get (req_form ex_save) (lit ''title'') []) \<and>
        slug p = slugify ex_libs (title p) \<and>
        content_html p = render_markdown ex_libs (content_md p)"
    by blast
  with n e c show ?thesis
    by (intro conjI)
qed

text \<open>
  C10. Whatever the request, and so in particular on a successful edit,
  \<open>admin_blog_edit\<close> leaves \<open>home_eval_leads\<close> and both key counters as they were, keeps
  the number and order of the rows of \<open>posts\<close>, keeps the \<open>id\<close> and \<open>created_at\<close> of every
  row, and leaves every row whose id is not the given one exactly as it was. What can
  change is the other eight fields of the row with the given id.
\<close>

theorem admin_blog_edit_frame:
  "home_eval_leads (db_after (admin_blog_edit L cfg now i req d)) = home_eval_leads d \<and>
   leads_seq (db_after (admin_blog_edit L cfg now i req d)) = leads_seq d \<and>
   posts_seq (db_after (admin_blog_edit L cfg now i req d)) = posts_seq d \<and>
   length (posts (db_after (admin_blog_edit L cfg now i req d))) = length (posts d) \<and>
   (\<forall>n < length (posts d).
      post_id (posts (db_after (admin_blog_edit L cfg now i req d)) ! n) =
        post_id (posts d ! n) \<and>
      created_at (posts (db_after (admin_blog_edit L cfg now i req d)) ! n) =
        created_at (posts d ! n) \<and>
      (post_id (posts d ! n) \<noteq> i \<longrightarrow>
         posts (db_after (admin_blog_edit L cfg now i req d)) ! n = posts d ! n))"
proof -
  let ?d' = "db_after (admin_blog_edit L cfg now i req d)"
  from admin_blog_edit_store [of L cfg now i req d]
  consider "?d' = d"
    | t s sm cm ch cu pb where "update_post d t s sm cm ch cu pb now i = Inr ?d'"
    by blast
  then show ?thesis
  proof cases
    case 1
    then show ?thesis by simp
  next
    case 2
    note r = update_post_rows [OF 2]
    have len: "length (posts ?d') = length (posts d)"
      by (simp add: r(4))
    have rows: "post_id (posts ?d' ! n) = post_id (posts d ! n) \<and>
                created_at (posts ?d' ! n) = created_at (posts d ! n) \<and>
                (post_id (posts d ! n) \<noteq> i \<longrightarrow> posts ?d' ! n = posts d ! n)"
      if "n < length (posts d)" for n
      using that by (simp add: r(4))
    from r(1,2,3) len rows show ?thesis
      by blast
  qed
qed


theorem admin_blog_edit_frame_witness:
  "returned (admin_blog_edit ex_libs ex_cfg ex_now 1 ex_save ex_db) =
     Inr (Some (Redirect (UrlFor ''blog_post'' [(''slug'', PyStr (lit ''new-title''))]))) \<and>
   title (posts (db_after (admin_blog_edit ex_libs ex_cfg ex_now 1 ex_save ex_db)) ! 0) =
     lit ''New Title'' \<and>
   home_eval_leads (db_after (admin_blog_edit ex_libs ex_cfg ex_now 1 ex_save ex_db)) =
     home_eval_leads ex_db \<and>
   post_id (posts (db_after (admin_blog_edit ex_libs ex_cfg ex_now 1 ex_save ex_db)) ! 0) =
     post_id (posts ex_db ! 0) \<and>
   created_at (posts (db_after (admin_blog_edit ex_libs ex_cfg ex_now 1 ex_save ex_db)) ! 0) =
     created_at (posts ex_db ! 0) \<and>
   post_id (posts ex_db ! 1) \<noteq> 1 \<and>
   posts (db_after (admin_blog_edit ex_libs ex_cfg ex_now 1 ex_save ex_db)) ! 1 =
     posts ex_db ! 1"
proof -
  note t = admin_blog_edit_frame [of ex_libs ex_cfg ex_now 1 ex_save ex_db]
  have l: "0 < length (posts ex_db)" "1 < length (posts ex_db)"
    by (simp_all add: ex_db_def)
  have i: "post_id (posts ex_db ! 1) \<noteq> 1"
    by (simp add: ex_db_def ex_post_without_html_def)
  have r: "returned (admin_blog_edit ex_libs ex_cfg ex_now 1 ex_save ex_db) =
     Inr (Some (Redirect (UrlFor ''blog_post'' [(''slug'', PyStr (lit ''new-title''))])))"
    by (simp add: ex_edit_saves)
  have n: "title (posts (db_after (admin_blog_edit ex_libs ex_cfg ex_now 1 ex_save ex_db)) ! 0) =
     lit ''New Title''"
    by (simp add: ex_edit_saves)
  from t have a: "home_eval_leads (db_after (admin_blog_edit ex_libs ex_cfg ex_now 1 ex_save ex_db)) =
     home_eval_leads ex_db"
    by (rule conjunct1)
  from t have q: "\<forall>n < length (posts ex_db).
      post_id (posts (db_after (admin_blog_edit ex_libs ex_cfg ex_now 1 ex_save ex_db)) ! n) =
        post_id (posts ex_db ! n) \<and>
      created_at (posts (db_after (admin_blog_edit ex_libs ex_cfg ex_now 1 ex_save ex_db)) ! n) =
        created_at (posts ex_db ! n) \<and>
      (post_id (posts ex_db ! n) \<noteq> 1 \<longrightarrow>
         posts (db_after (admin_blog_edit ex_libs ex_cfg ex_now 1 ex_save ex_db)) ! n =
           posts ex_db ! n)"
    by (elim conjE)
  from q [rule_format, OF l(1)] q [rule_format, OF l(2)] i r n a show ?thesis
    by blast
qed

subsection \<open>Two posts with one title\<close>

text \<open>
  C8. Let a first create succeed, and let a second create be submitted with the same
  (trimmed) title, the right password and some content. Both compute the same slug. The
  second \<open>INSERT\<close> fails the uniqueness of \<open>slug\<close>: the handler raises \<open>IntegrityError\<close> and the
  store stays as the first create left it, so nothing is overwritten. Of the two
  behaviours exactly one occurs, the failure.
\<close>

theorem same_title_second_insert_fails:
  assumes "returned (admin_blog_new L cfg now1 req1 d) = Inr (Some (Redirect u))"
    and "req_method req2 = POST"
    and "ADMIN_PASSWORD cfg = Some (form_get (req_form req2) (lit ''password'') [])"
    and "strip (form_get (req_form req2) (lit ''title'') []) =
         strip (form_get (req_form req1) (lit ''title'') [])"
    and "strip (form_get (req_form req2) (lit ''content_md'') []) \<noteq> []"
  shows "slugify L (strip (form_get (req_form req2) (lit ''title'') [])) =
           slugify L (strip (form_get (req_form req1) (lit ''title'') [])) \<and>
         fails_uniqueness
           (admin_blog_new L cfg now2 req2 (db_after (admin_blog_new L cfg now1 req1 d))) \<and>
         \<not> silently_overwrites (db_after (admin_blog_new L cfg now1 req1 d))
           (admin_blog_new L cfg now2 req2 (db_after (admin_blog_new L cfg now1 req1 d)))
           (slugify L (strip (form_get (req_form req1) (lit ''title'') []))) \<and>
         db_after
           (admin_blog_new L cfg now2 req2 (db_after (admin_blog_new L cfg now1 req1 d))) =
           db_after (admin_blog_new L cfg now1 req1 d)"
proof -
  let ?d1 = "db_after (admin_blog_new L cfg now1 req1 d)"
  let ?t = "strip (form_get (req_form req1) (lit ''title'') [])"
  let ?s = "slugify L ?t"
  have t1: "?t \<noteq> []"
    using admin_blog_new_redirect_fields [OF assms(1)] by simp
  from assms(1) admin_blog_new_store [of L cfg now1 req1 d]
  have "insert_post d ?t ?s
          (strip (form_get (req_form req1) (lit ''summary'') []))
          (strip (form_get (req_form req1) (lit ''content_md'') []))
          (render_markdown L (strip (form_get (req_form req1) (lit ''content_md'') [])))
          (strip (form_get (req_form req1) (lit ''cover_url'') []))
          (if map_of (req_form req1) (lit ''published'') = Some (lit ''on'') then 1 else 0)
          now1 now1 = Inr ?d1"
    by auto
  from insert_post_cases(2) [OF this] have "\<exists>q \<in> set (posts ?d1). slug q = ?s"
    by simp
  then have taken: "list_ex (\<lambda>q. slug q = ?s) (posts ?d1)"
    by (simp add: list_ex_iff)
  have t2: "strip (form_get (req_form req2) (lit ''title'') []) \<noteq> []"
    using t1 assms(4) by simp
  have "admin_blog_new L cfg now2 req2 ?d1 = raise ?d1 IntegrityError"
    by (simp add: admin_blog_new_write [OF assms(2) assms(3) refl t2 assms(5)]
          assms(4) insert_post_def taken)
  then show ?thesis
    by (simp add: assms(4) fails_uniqueness_def silently_overwrites_def raise_def)
qed

theorem same_title_second_insert_fails_witness:
  "returned (admin_blog_new ex_libs ex_cfg ex_now ex_save ex_db) =
     Inr (Some (Redirect (UrlFor ''blog_post'' [(''slug'', PyStr (lit ''new-title''))]))) \<and>
   fails_uniqueness
     (admin_blog_new ex_libs ex_cfg ex_now ex_save
        (db_after (admin_blog_new ex_libs ex_cfg ex_now ex_save ex_db))) \<and>
   \<not> silently_overwrites (db_after (admin_blog_new ex_libs ex_cfg ex_now ex_save ex_db))
     (admin_blog_new ex_libs ex_cfg ex_now ex_save
        (db_after (admin_blog_new ex_libs ex_cfg ex_now ex_save ex_db)))
     (slugify ex_libs (strip (form_get (req_form ex_save) (lit ''title'') []))) \<and>
   db_after
     (admin_blog_new ex_libs ex_cfg ex_now ex_save
        (db_after (admin_blog_new ex_libs ex_cfg ex_now ex_save ex_db))) =
     db_after (admin_blog_new ex_libs ex_cfg ex_now ex_save ex_db)"
proof -
  have n: "returned (admin_blog_new ex_libs ex_cfg ex_now ex_save ex_db) =
     Inr (Some (Redirect (UrlFor ''blog_post'' [(''slug'', PyStr (lit ''new-title''))])))"
    by (simp add: ex_new_saves)
  have c: "ADMIN_PASSWORD ex_cfg = Some (form_get (req_form ex_save) (lit ''password'') [])"
    by (simp add: ex_cfg_def ex_save_fields)
  have "lit ''<script>x</script>'' \<noteq> []"
    by (simp add: lit_def)
  then have m: "strip (form_get (req_form ex_save) (lit ''content_md'') []) \<noteq> []"
    by (simp add: ex_save_fields(4))
  from same_title_second_insert_fails [OF n ex_save_fields(1) c refl m, of ex_now] n
  show ?thesis
    by blast
qed

subsection \<open>Sanitised HTML\<close>

text \<open>
  C7. \<open>bleach.clean\<close> and \<open>bleach.sanitizer.ALLOWED_TAGS\<close> are not code of this
  repository; the property is proved for every sanitiser whose output has only tags of
  the allow-list it is given, and every default allow-list without \<open>script\<close>. Then for
  every Markdown input, with or without a script tag, the HTML that \<open>render_markdown\<close>
  returns has no script tag, because the tags the code adds to the allow-list do not
  include \<open>script\<close>; and no row that \<open>admin_blog_new\<close> or \<open>admin_blog_edit\<close> writes has a
  script tag in its \<open>content_html\<close>.
\<close>

theorem rendered_html_has_no_script_tag:
  assumes "clean_respects_allow_list L" and "lit ''script'' \<notin> bleach_ALLOWED_TAGS L"
  shows "\<not> contains_tag (render_markdown L md_text) (lit ''script'') \<and>
         (\<forall>p \<in> set (posts (db_after (admin_blog_new L cfg now req d))).
            p \<notin> set (posts d) \<longrightarrow> \<not> contains_tag (content_html p) (lit ''script'')) \<and>
         (\<forall>p \<in> set (posts (db_after (admin_blog_edit L cfg now i req d))).
            p \<notin> set (posts d) \<longrightarrow> \<not> contains_tag (content_html p) (lit ''script''))"
proof -
  have r: "\<not> contains_tag (render_markdown L t) (lit ''script'')" for t
  proof
    assume "contains_tag (render_markdown L t) (lit ''script'')"
    with assms(1) have "lit ''script'' \<in> bleach_ALLOWED_TAGS L \<union>
            {lit ''p'', lit ''img'', lit ''h1'', lit ''h2'', lit ''h3'', lit ''h4'', lit ''pre'',
             lit ''code'', lit ''table'', lit ''thead'', lit ''tbody'', lit ''tr'', lit ''th'',
             lit ''td'', lit ''hr'', lit ''br''}"
      unfolding clean_respects_allow_list_def render_markdown_def Let_def by blast
    with assms(2) show False
      by simp
  qed
  have "\<not> contains_tag (content_html p) (lit ''script'')"
    if "p \<in> set (posts (db_after (admin_blog_new L cfg now req d)))" "p \<notin> set (posts d)" for p
    using admin_blog_new_written [OF that] r by simp
  moreover have "\<not> contains_tag (content_html p) (lit ''script'')"
    if "p \<in> set (posts (db_after (admin_blog_edit L cfg now i req d)))" "p \<notin> set (posts d)" for p
    using admin_blog_edit_written [OF that] r by simp
  ultimately show ?thesis
    using r by blast
qed

theorem rendered_html_has_no_script_tag_witness:
  "clean_respects_allow_list ex_libs \<and> lit ''script'' \<notin> bleach_ALLOWED_TAGS ex_libs \<and>
   contains_tag (lit ''<script>x</script>'') (lit ''script'') \<and>
   \<not> contains_tag (render_markdown ex_libs (lit ''<script>x</script>'')) (lit ''script'') \<and>
   \<not> contains_tag
       (content_html (last (posts (db_after (admin_blog_new ex_libs ex_cfg ex_now ex_save ex_db)))))
       (lit ''script'')"
proof -
  have a: "lit ''script'' \<notin> bleach_ALLOWED_TAGS ex_libs"
    by (simp add: ex_libs_def)
  have c: "contains_tag (lit ''<script>x</script>'') (lit ''script'')"
    by (simp add: contains_tag_def lit_def tag_name_char_def ascii_alpha_def ascii_lower_def
          Let_def)
  note t = rendered_html_has_no_script_tag
    [OF ex_libs_respects_allow_list a, of "lit ''<script>x</script>''" ex_cfg ex_now ex_save ex_db 1]
  from t have r: "\<not> contains_tag (render_markdown ex_libs (lit ''<script>x</script>''))
                     (lit ''script'')"
    by (rule conjunct1)
  have "content_html (last (posts (db_after (admin_blog_new ex_libs ex_cfg ex_now ex_save ex_db)))) =
        render_markdown ex_libs (lit ''<script>x</script>'')"
    by (simp add: ex_new_saves ex_save_derived)
  with r ex_libs_respects_allow_list a c show ?thesis
    by simp
qed

end
